theory Spec2Isabelle
  imports Main "HOL-Library.Word"
begin

unbundle bit_operations_syntax

section \<open>pwr: the data model\<close>

text \<open>
  The program is a single process that reads and writes files, asks the kernel about
  paths, network interfaces and user identities, and starts child processes. The
  embedding threads one \<open>state\<close> record through every function: the program's two
  globals (\<open>ruid\<close>, \<open>flags\<close>) and the part of the machine the program can observe or
  change. Byte strings are \<open>string\<close>; a C string read from a buffer ends at its first
  NUL byte.
\<close>

abbreviation NL :: char where "NL \<equiv> CHR 0x0A"
abbreviation NUL :: char where "NUL \<equiv> CHR 0x00"

text \<open>\<open>enum errors\<close>: the first enumerator is 0, each next one is its predecessor plus 1.\<close>

definition E_OK :: int where "E_OK = 0"
definition E_NO_ACTION :: int where "E_NO_ACTION = E_OK + 1"
definition E_BAD_ARG :: int where "E_BAD_ARG = E_NO_ACTION + 1"
definition E_CPUFREQ_WRITE :: int where "E_CPUFREQ_WRITE = E_BAD_ARG + 1"
definition E_PWR_STATE_WRITE :: int where "E_PWR_STATE_WRITE = E_CPUFREQ_WRITE + 1"
definition E_PWR_STATE_READ :: int where "E_PWR_STATE_READ = E_PWR_STATE_WRITE + 1"
definition E_FORK_FAILED :: int where "E_FORK_FAILED = E_PWR_STATE_READ + 1"

text \<open>
  \<open>flags.action\<close> is a function pointer; the functions it can point to are the
  constructors of \<open>action\<close>.
\<close>

datatype action =
    Action_none | Action_perform | Action_powersave | Action_query
  | Action_toggle | Action_version | Action_help

record s_flags =
  program_name :: string
  action :: action
  no_restart :: int

text \<open>What \<open>stat\<close> reports of a file system object, and the bytes a read of it yields.\<close>

record inode =
  st_mode :: "32 word"
  bytes :: string

text \<open>Values of \<open>config.h\<close> and of the predefined macro \<open>__FILE__\<close>, fixed at build time.\<close>

record config =
  file_macro :: string
  s_pwr_version :: string
  pwr_version_major :: string
  pwr_version_minor :: string

record state =
  ruid :: nat
  flags :: s_flags
  uid_real :: nat
  euid :: nat
  uid_saved :: nat
  fs :: "string \<rightharpoonup> inode"
  rperm :: "nat \<Rightarrow> string \<Rightarrow> bool"
  wperm :: "nat \<Rightarrow> string \<Rightarrow> bool"
  creat_mode :: "32 word"
  glob_cpus :: "string list"
  ifaddrs :: "string list option"
  forks_left :: nat
  errno_msg :: string
  launched :: "(string \<times> string list) list"
  out :: string
  err :: string
  cfg :: config

text \<open>
  \<^item> \<open>uid_real\<close>, \<open>euid\<close>, \<open>uid_saved\<close>: the real, effective and saved user id of the process.
  \<^item> \<open>fs\<close>: the objects reachable by path. \<open>rperm u p\<close> and \<open>wperm u p\<close>: whether the
    kernel lets effective user \<open>u\<close> open \<open>p\<close> for reading, or open (creating) it for writing.
    \<open>creat_mode\<close>: the mode a file created by \<open>fopen\<close> receives.
  \<^item> \<open>glob_cpus\<close>: the strings the wildcard of the governor pattern matches, in the order
    \<open>glob\<close> reports the paths.
  \<^item> \<open>ifaddrs\<close>: the \<open>ifa_name\<close> of each entry of the list \<open>getifaddrs\<close> builds, or \<open>None\<close>
    when \<open>getifaddrs\<close> fails and leaves the pointer unset.
  \<^item> \<open>forks_left\<close>: how many more calls of \<open>fork\<close> succeed. \<open>launched\<close>: the programs
    started so far, with their argument vectors. The embedding follows the parent process.
  \<^item> \<open>errno_msg\<close>: the text \<open>strerror(errno)\<close> yields at a failing call.
  \<^item> \<open>out\<close>, \<open>err\<close>: the bytes written to standard output and standard error.
\<close>

text \<open>
  A call returns a value and the next state, ends the process through \<open>exit\<close> with a
  status, or has no defined behaviour in C (\<open>Undef\<close>).
\<close>

datatype 'a res = Ret 'a state | Exit int state | Undef

definition andthen :: "'a res \<Rightarrow> ('a \<Rightarrow> state \<Rightarrow> 'b res) \<Rightarrow> 'b res" where
  "andthen r k = (case r of Ret v s \<Rightarrow> k v s | Exit e s \<Rightarrow> Exit e s | Undef \<Rightarrow> Undef)"

section \<open>System calls and library functions\<close>

definition c_str :: "string \<Rightarrow> string" where
  "c_str buf = takeWhile (\<lambda>c. c \<noteq> NUL) buf"

definition c_nth :: "string \<Rightarrow> nat \<Rightarrow> char" where
  "c_nth str i = (if i < length str then str ! i else NUL)"

definition stat :: "state \<Rightarrow> string \<Rightarrow> inode option" where
  "stat s path = fs s path"

definition fopen_r :: "state \<Rightarrow> string \<Rightarrow> string option" where
  "fopen_r s path =
     (case fs s path of
        None \<Rightarrow> None
      | Some f \<Rightarrow> if rperm s (euid s) path then Some (bytes f) else None)"

text \<open>
  \<open>fopen(path, "w")\<close>: on success the file exists and is empty. The source checks
  neither \<open>fprintf\<close> nor \<open>fclose\<close>; \<open>fprint_close\<close> is the write they perform on a
  stream that was opened.
\<close>

definition fopen_w :: "state \<Rightarrow> string \<Rightarrow> state option" where
  "fopen_w s path =
     (if wperm s (euid s) path
      then Some (s\<lparr>fs := (fs s)(path \<mapsto>
             (case fs s path of
                None \<Rightarrow> \<lparr>st_mode = creat_mode s, bytes = []\<rparr>
              | Some f \<Rightarrow> f\<lparr>bytes := []\<rparr>))\<rparr>)
      else None)"

definition fprint_close :: "string \<Rightarrow> string \<Rightarrow> state \<Rightarrow> state" where
  "fprint_close path text s =
     (case fs s path of
        None \<Rightarrow> s
      | Some f \<Rightarrow> s\<lparr>fs := (fs s)(path \<mapsto> f\<lparr>bytes := bytes f @ text\<rparr>)\<rparr>)"

text \<open>
  \<open>getline\<close> on a fresh stream: the first line with its newline, or what is left of
  the file when it has no newline. At end of file it returns -1 and the buffer holds
  nothing that was read: \<open>None\<close>.
\<close>

definition getline :: "string \<Rightarrow> string option" where
  "getline content =
     (if content = [] then None
      else Some (takeWhile (\<lambda>c. c \<noteq> NL) content @ (if NL \<in> set content then [NL] else [])))"

text \<open>
  \<open>seteuid\<close> (Linux): a process whose effective user is 0 may take any id; any other
  process only its real, effective or saved id. A refused call changes nothing.
\<close>

definition seteuid :: "nat \<Rightarrow> state \<Rightarrow> state" where
  "seteuid u s =
     (if euid s = 0 \<or> u = uid_real s \<or> u = euid s \<or> u = uid_saved s
      then s\<lparr>euid := u\<rparr> else s)"

definition geteuid :: "state \<Rightarrow> nat" where
  "geteuid s = euid s"

definition puts :: "string \<Rightarrow> state \<Rightarrow> state" where
  "puts str s = s\<lparr>out := out s @ str @ [NL]\<rparr>"

definition printf :: "string \<Rightarrow> state \<Rightarrow> state" where
  "printf str s = s\<lparr>out := out s @ str\<rparr>"

definition eprintf :: "string \<Rightarrow> state \<Rightarrow> state" where
  "eprintf str s = s\<lparr>err := err s @ str\<rparr>"

section \<open>pwr.c\<close>

text \<open>
  The macro \<open>ehandle(ACTION, EID)\<close>, with the line it is expanded on: when the
  condition holds it prints a diagnostic and calls \<open>exit(EID)\<close>.
\<close>

definition ehandle :: "bool \<Rightarrow> int \<Rightarrow> string \<Rightarrow> state \<Rightarrow> unit res" where
  "ehandle cond eid line s =
     (if cond
      then Exit eid (eprintf (''Error on '' @ file_macro (cfg s) @ '':'' @ line @ '': ''
                                @ errno_msg s @ [NL]) s)
      else Ret () s)"

text \<open>
  The macro \<open>fexecl\<close>: \<open>fork\<close>, fatal when it fails; the child becomes the named
  program and the parent waits for it. The embedding is the parent's run. It records the
  program as started when \<open>fork\<close> succeeds and does not follow the child: the macro has
  no \<open>_exit\<close> after \<open>execl\<close>, so a child in which \<open>execl\<close> fails would go on with the
  rest of the transition as a second process.
\<close>

definition fexecl :: "string \<Rightarrow> string \<Rightarrow> string list \<Rightarrow> state \<Rightarrow> unit res" where
  "fexecl line path argv s =
     andthen (ehandle (forks_left s = 0) E_FORK_FAILED line s) (\<lambda>_ s.
       Ret () (s\<lparr>forks_left := forks_left s - 1, launched := launched s @ [(path, argv)]\<rparr>))"

text \<open>\<open>S_IEXEC\<close> is the owner's execute bit, octal 0100.\<close>

definition S_IEXEC :: "32 word" where
  "S_IEXEC = 0x40"

text \<open>
  \<open>return status.st_mode & S_IEXEC != 0;\<close> In C \<open>!=\<close> binds tighter than \<open>&\<close>, so the
  mode is masked with the value of the comparison.
\<close>

definition binary_exists :: "state \<Rightarrow> string \<Rightarrow> int" where
  "binary_exists s path =
     (case stat s path of
        None \<Rightarrow> 0
      | Some status \<Rightarrow> sint (st_mode status AND (if S_IEXEC \<noteq> 0 then 1 else 0)))"

text \<open>
  The loop of \<open>wlan_name\<close> over the interface list: it returns \<open>found\<close> and the rest
  of the list from the entry \<open>iface\<close> points to (\<open>[]\<close> is the null pointer).
\<close>

fun wlan_loop :: "string list \<Rightarrow> bool \<times> string list" where
  "wlan_loop [] = (False, [])"
| "wlan_loop (name # rest) =
     (if c_nth name 0 = CHR ''w'' \<and> c_nth name 1 = CHR ''l'' then (True, name # rest)
      else wlan_loop rest)"

text \<open>
  After the loop the name of \<open>iface\<close> is copied before \<open>found\<close> is looked at; with
  \<open>iface\<close> null that read is undefined.
\<close>

definition wlan_name :: "state \<Rightarrow> string option res" where
  "wlan_name s =
     (case ifaddrs s of
        None \<Rightarrow> Undef
      | Some first \<Rightarrow>
          (case wlan_loop first of
             (found, []) \<Rightarrow> Undef
           | (found, name # _) \<Rightarrow>
               (let ifname = name in if found then Ret (Some ifname) s else Ret None s)))"

definition restart_display_manager :: "state \<Rightarrow> unit res" where
  "restart_display_manager s =
     (if no_restart (flags s) = 0 \<and> binary_exists s ''/bin/systemctl'' \<noteq> 0
      then fexecl ''132'' ''/bin/systemctl'' [''systemctl'', ''restart'', ''display-manager''] s
      else Ret () s)"

definition prime_select :: "string \<Rightarrow> state \<Rightarrow> unit res" where
  "prime_select gpu_card s =
     (if binary_exists s ''/usr/bin/prime-select'' \<noteq> 0
      then fexecl ''137'' ''/usr/bin/prime-select'' [''prime-select'', gpu_card] s
      else Ret () s)"

definition wifi_power :: "string \<Rightarrow> state \<Rightarrow> unit res" where
  "wifi_power pstate s =
     andthen (wlan_name s) (\<lambda>iface s.
       if binary_exists s ''/sbin/iwconfig'' \<noteq> 0 \<and> iface \<noteq> None
       then fexecl ''144'' ''/sbin/iwconfig'' [''iwconfig'', the iface, ''power'', pstate] s
       else Ret () s)"

text \<open>The paths \<open>glob\<close> finds for \<open>/sys/devices/system/cpu/cpu*/cpufreq/scaling_governor\<close>.\<close>

definition glob_governors :: "state \<Rightarrow> string list" where
  "glob_governors s =
     map (\<lambda>m. ''/sys/devices/system/cpu/cpu'' @ m @ ''/cpufreq/scaling_governor'') (glob_cpus s)"

fun cpu_governor_loop :: "string list \<Rightarrow> string \<Rightarrow> state \<Rightarrow> unit res" where
  "cpu_governor_loop [] rule s = Ret () s"
| "cpu_governor_loop (path # paths) rule s =
     (let f = fopen_w s path in
      andthen (ehandle (f = None) E_CPUFREQ_WRITE ''156'' s) (\<lambda>_ _.
        cpu_governor_loop paths rule (fprint_close path (rule @ [NL]) (the f))))"

definition cpu_governor :: "string \<Rightarrow> state \<Rightarrow> unit res" where
  "cpu_governor rule s = cpu_governor_loop (glob_governors s) rule s"

definition pwr_state_path :: string where
  "pwr_state_path = ''/var/lib/pwr_state''"

text \<open>
  \<open>get_pwr_state\<close>. The second test of \<open>pstate\<close> follows the \<open>ehandle\<close> on the same
  condition. The line is cut at its first newline, and as a C string it ends at its
  first NUL. At end of file \<open>getline\<close> leaves a buffer that was never filled, and the
  search for the newline reads it.
\<close>

definition get_pwr_state :: "state \<Rightarrow> string res" where
  "get_pwr_state s =
     (let pstate = fopen_r s pwr_state_path in
      andthen (ehandle (pstate = None) E_PWR_STATE_READ ''167'' s) (\<lambda>_ s.
        if pstate = None then Ret ''perform'' s
        else (case getline (the pstate) of
                None \<Rightarrow> Undef
              | Some result \<Rightarrow> Ret (takeWhile (\<lambda>c. c \<noteq> NL) (c_str result)) s)))"

definition set_pwr_state :: "string \<Rightarrow> state \<Rightarrow> unit res" where
  "set_pwr_state pstate s =
     (let f = fopen_w s pwr_state_path in
      andthen (ehandle (f = None) E_PWR_STATE_WRITE ''184'' s) (\<lambda>_ _.
        Ret () (fprint_close pwr_state_path (pstate @ [NL]) (the f))))"

definition action_none :: "state \<Rightarrow> int res" where
  "action_none s =
     Ret E_NO_ACTION
       (eprintf (''Run `'' @ program_name (flags s) @ ''` --help` for help.'' @ [NL])
         (eprintf (''No action specified'' @ [NL]) s))"

definition action_perform :: "state \<Rightarrow> int res" where
  "action_perform s =
     andthen (cpu_governor ''performance'' (seteuid 0 s)) (\<lambda>_ s.
     andthen (prime_select ''nvidia'' s) (\<lambda>_ s.
     andthen (wifi_power ''off'' s) (\<lambda>_ s.
     andthen (restart_display_manager s) (\<lambda>_ s.
     andthen (set_pwr_state ''perform'' s) (\<lambda>_ s.
       Ret E_OK (seteuid (ruid s) s))))))"

definition action_powersave :: "state \<Rightarrow> int res" where
  "action_powersave s =
     andthen (cpu_governor ''powersave'' (seteuid 0 s)) (\<lambda>_ s.
     andthen (prime_select ''intel'' s) (\<lambda>_ s.
     andthen (wifi_power ''on'' s) (\<lambda>_ s.
     andthen (restart_display_manager s) (\<lambda>_ s.
     andthen (set_pwr_state ''powersave'' s) (\<lambda>_ s.
       Ret E_OK (seteuid (ruid s) s))))))"

definition action_query :: "state \<Rightarrow> int res" where
  "action_query s = andthen (get_pwr_state s) (\<lambda>pstate s. Ret E_OK (puts pstate s))"

definition action_toggle :: "state \<Rightarrow> int res" where
  "action_toggle s =
     andthen (get_pwr_state s) (\<lambda>pstate s.
       if pstate = ''powersave'' then action_perform s else action_powersave s)"

definition action_version :: "state \<Rightarrow> int res" where
  "action_version s =
     Ret E_OK
       (puts ''https://github.com/emctague/pwr''
         (puts ''Licensed under the MIT License.''
           (puts ''Copyright 2018 Ethan McTague.''
             (puts (''pwr v'' @ s_pwr_version (cfg s) @ [NL]) s))))"

definition help_lines :: "string list" where
  "help_lines =
     [''Actions:'',
      '' perform (pe)      Go into performance mode.'',
      '' powersave (ps)    Go into power-saving mode.'',
      '' toggle (to)       Toggles the current state.'',
      '' query (qu)        Query the current state, prints 'perform' or 'powersave'.'',
      '' --help            Prints this help information.'',
      '' --version         Prints version, contact, and copyright information.'' @ [NL],
      ''Flags:'',
      '' --norestart (-n)  Do not restart display manager after changing modes.'']"

definition action_help :: "state \<Rightarrow> int res" where
  "action_help s =
     Ret E_OK
       (fold puts help_lines
         (printf (''Usage: '' @ program_name (flags s) @ '' [action] [flags]'' @ [NL])
           (puts ''pwr - Switches between performance and power-saving modes.'' s)))"

fun run_action :: "action \<Rightarrow> state \<Rightarrow> int res" where
  "run_action Action_none s = action_none s"
| "run_action Action_perform s = action_perform s"
| "run_action Action_powersave s = action_powersave s"
| "run_action Action_query s = action_query s"
| "run_action Action_toggle s = action_toggle s"
| "run_action Action_version s = action_version s"
| "run_action Action_help s = action_help s"

text \<open>The loop of \<open>parse_args\<close> over \<open>argv[1]\<close> .. \<open>argv[argc - 1]\<close>.\<close>

fun parse_args_loop :: "string list \<Rightarrow> state \<Rightarrow> int \<times> state" where
  "parse_args_loop [] s = (E_OK, s)"
| "parse_args_loop (arg # rest) s =
     (if arg = ''perform'' \<or> arg = ''pe''
      then parse_args_loop rest (s\<lparr>flags := (flags s)\<lparr>action := Action_perform\<rparr>\<rparr>)
      else if arg = ''powersave'' \<or> arg = ''ps''
      then parse_args_loop rest (s\<lparr>flags := (flags s)\<lparr>action := Action_powersave\<rparr>\<rparr>)
      else if arg = ''query'' \<or> arg = ''qu''
      then parse_args_loop rest (s\<lparr>flags := (flags s)\<lparr>action := Action_query\<rparr>\<rparr>)
      else if arg = ''toggle'' \<or> arg = ''to''
      then parse_args_loop rest (s\<lparr>flags := (flags s)\<lparr>action := Action_toggle\<rparr>\<rparr>)
      else if arg = ''--help''
      then parse_args_loop rest (s\<lparr>flags := (flags s)\<lparr>action := Action_help\<rparr>\<rparr>)
      else if arg = ''--version''
      then parse_args_loop rest (s\<lparr>flags := (flags s)\<lparr>action := Action_version\<rparr>\<rparr>)
      else if arg = ''--norestart'' \<or> arg = ''-n''
      then parse_args_loop rest (s\<lparr>flags := (flags s)\<lparr>no_restart := 1\<rparr>\<rparr>)
      else (E_BAD_ARG, eprintf (''Bad argument encountered: '' @ arg @ [NL]) s))"

text \<open>\<open>argv\<close> is the program name \<open>argv[0]\<close> followed by the arguments.\<close>

definition parse_args :: "string \<Rightarrow> string list \<Rightarrow> state \<Rightarrow> int \<times> state" where
  "parse_args argv0 args s =
     parse_args_loop args
       (s\<lparr>flags := \<lparr>program_name = argv0, action = Action_none, no_restart = 0\<rparr>\<rparr>)"

text \<open>\<open>main\<close>: the value it returns is the exit status of the process.\<close>

definition main :: "string \<Rightarrow> string list \<Rightarrow> state \<Rightarrow> int res" where
  "main argv0 args s =
     (let s = s\<lparr>ruid := geteuid s\<rparr>;
          (result, s) = parse_args argv0 args s
      in if result \<noteq> E_OK then Ret result s else run_action (action (flags s)) s)"

section \<open>pwr.cpp\<close>

text \<open>
  The C++ file declares only the first three enumerators of \<open>errors\<close>, with the same
  values, has no \<open>ehandle\<close>, no state file and no \<open>query\<close> or \<open>toggle\<close> action. Its
  \<open>binary_exists\<close> and \<open>wlan_name\<close> are the C ones, statement for statement.
\<close>

text \<open>
  Its \<open>fexecl\<close> does not look at a failed \<open>fork\<close>: \<open>waitpid(-1, ...)\<close> then finds no
  child to wait for and returns.
\<close>

definition fexecl_cpp :: "string \<Rightarrow> string list \<Rightarrow> state \<Rightarrow> unit res" where
  "fexecl_cpp path argv s =
     (if forks_left s = 0 then Ret () s
      else Ret () (s\<lparr>forks_left := forks_left s - 1, launched := launched s @ [(path, argv)]\<rparr>))"

definition restart_display_manager_cpp :: "state \<Rightarrow> unit res" where
  "restart_display_manager_cpp s =
     (if no_restart (flags s) = 0 \<and> binary_exists s ''/bin/systemctl'' \<noteq> 0
      then fexecl_cpp ''/bin/systemctl'' [''systemctl'', ''restart'', ''display-manager''] s
      else Ret () s)"

definition prime_select_cpp :: "string \<Rightarrow> state \<Rightarrow> unit res" where
  "prime_select_cpp gpu_card s =
     (if binary_exists s ''/usr/bin/prime-select'' \<noteq> 0
      then fexecl_cpp ''/usr/bin/prime-select'' [''prime-select'', gpu_card] s
      else Ret () s)"

definition wifi_power_cpp :: "string \<Rightarrow> state \<Rightarrow> unit res" where
  "wifi_power_cpp pstate s =
     andthen (wlan_name s) (\<lambda>iface s.
       if binary_exists s ''/sbin/iwconfig'' \<noteq> 0 \<and> iface \<noteq> None
       then fexecl_cpp ''/sbin/iwconfig'' [''iwconfig'', the iface, ''power'', pstate] s
       else Ret () s)"

text \<open>An \<open>ofstream\<close> that could not be opened ignores what is written to it.\<close>

fun cpu_governor_loop_cpp :: "string list \<Rightarrow> string \<Rightarrow> state \<Rightarrow> unit res" where
  "cpu_governor_loop_cpp [] rule s = Ret () s"
| "cpu_governor_loop_cpp (path # paths) rule s =
     (case fopen_w s path of
        None \<Rightarrow> cpu_governor_loop_cpp paths rule s
      | Some gov \<Rightarrow> cpu_governor_loop_cpp paths rule (fprint_close path (rule @ [NL]) gov))"

definition cpu_governor_cpp :: "string \<Rightarrow> state \<Rightarrow> unit res" where
  "cpu_governor_cpp rule s = cpu_governor_loop_cpp (glob_governors s) rule s"

definition action_none_cpp :: "state \<Rightarrow> int res" where
  "action_none_cpp s =
     Ret E_NO_ACTION
       (eprintf (''Run `'' @ program_name (flags s) @ '' --help` for help.'' @ [NL])
         (eprintf (''No action specified'' @ [NL]) s))"

definition action_perform_cpp :: "state \<Rightarrow> int res" where
  "action_perform_cpp s =
     andthen (cpu_governor_cpp ''performance'' (seteuid 0 s)) (\<lambda>_ s.
     andthen (prime_select_cpp ''nvidia'' s) (\<lambda>_ s.
     andthen (wifi_power_cpp ''off'' s) (\<lambda>_ s.
     andthen (restart_display_manager_cpp s) (\<lambda>_ s.
       Ret E_OK (seteuid (ruid s) s)))))"

definition action_powersave_cpp :: "state \<Rightarrow> int res" where
  "action_powersave_cpp s =
     andthen (cpu_governor_cpp ''powersave'' (seteuid 0 s)) (\<lambda>_ s.
     andthen (prime_select_cpp ''intel'' s) (\<lambda>_ s.
     andthen (wifi_power_cpp ''on'' s) (\<lambda>_ s.
     andthen (restart_display_manager_cpp s) (\<lambda>_ s.
       Ret E_OK (seteuid (ruid s) s)))))"

definition action_version_cpp :: "state \<Rightarrow> int res" where
  "action_version_cpp s =
     Ret E_OK
       (puts ''https://github.com/emctague/pwr''
         (puts ''Licensed under the MIT License.''
           (puts ''Copyright 2018 Ethan McTague.''
             (puts (''pwr v'' @ pwr_version_major (cfg s) @ ''.'' @ pwr_version_minor (cfg s)) s))))"

definition help_lines_cpp :: "string list" where
  "help_lines_cpp =
     [''Actions:'',
      '' perform (pe)      Go into performance mode.'',
      '' powersave (ps)    Go into power-saving mode.'',
      '' --help            Prints this help information.'',
      '' --version         Prints version, contact, and copyright information.'' @ [NL],
      ''Flags:'',
      '' --norestart (-n)  Do not restart display manager after changing modes.'']"

definition action_help_cpp :: "state \<Rightarrow> int res" where
  "action_help_cpp s =
     Ret E_OK
       (fold puts help_lines_cpp
         (puts (''Usage:'' @ program_name (flags s) @ '' [action] [flags]'')
           (puts ''pwr - Switches between performance and power-saving modes.'' s)))"

text \<open>
  The C++ parser never stores \<open>action_query\<close> or \<open>action_toggle\<close>: the file does not
  define them.
\<close>

fun run_action_cpp :: "action \<Rightarrow> state \<Rightarrow> int res" where
  "run_action_cpp Action_none s = action_none_cpp s"
| "run_action_cpp Action_perform s = action_perform_cpp s"
| "run_action_cpp Action_powersave s = action_powersave_cpp s"
| "run_action_cpp Action_version s = action_version_cpp s"
| "run_action_cpp Action_help s = action_help_cpp s"
| "run_action_cpp _ s = Undef"

fun parse_args_loop_cpp :: "string list \<Rightarrow> state \<Rightarrow> int \<times> state" where
  "parse_args_loop_cpp [] s = (E_OK, s)"
| "parse_args_loop_cpp (arg # rest) s =
     (if arg = ''perform'' \<or> arg = ''pe''
      then parse_args_loop_cpp rest (s\<lparr>flags := (flags s)\<lparr>action := Action_perform\<rparr>\<rparr>)
      else if arg = ''powersave'' \<or> arg = ''ps''
      then parse_args_loop_cpp rest (s\<lparr>flags := (flags s)\<lparr>action := Action_powersave\<rparr>\<rparr>)
      else if arg = ''--help''
      then parse_args_loop_cpp rest (s\<lparr>flags := (flags s)\<lparr>action := Action_help\<rparr>\<rparr>)
      else if arg = ''--version''
      then parse_args_loop_cpp rest (s\<lparr>flags := (flags s)\<lparr>action := Action_version\<rparr>\<rparr>)
      else if arg = ''--norestart'' \<or> arg = ''-n''
      then parse_args_loop_cpp rest (s\<lparr>flags := (flags s)\<lparr>no_restart := 1\<rparr>\<rparr>)
      else (E_BAD_ARG, eprintf (''Bad argument encountered: '' @ arg @ [NL]) s))"

definition parse_args_cpp :: "string \<Rightarrow> string list \<Rightarrow> state \<Rightarrow> int \<times> state" where
  "parse_args_cpp argv0 args s =
     parse_args_loop_cpp args
       (s\<lparr>flags := \<lparr>program_name = argv0, action = Action_none, no_restart = 0\<rparr>\<rparr>)"

definition main_cpp :: "string \<Rightarrow> string list \<Rightarrow> state \<Rightarrow> int res" where
  "main_cpp argv0 args s =
     (let s = s\<lparr>ruid := geteuid s\<rparr>;
          (result, s) = parse_args_cpp argv0 args s
      in if result \<noteq> E_OK then Ret result s else run_action_cpp (action (flags s)) s)"

section \<open>Vocabulary of the properties\<close>

text \<open>How a run ended: the exit status of the process, the value returned, the last state.\<close>

fun exit_status :: "int res \<Rightarrow> int option" where
  "exit_status (Ret r s) = Some r"
| "exit_status (Exit e s) = Some e"
| "exit_status Undef = None"

fun returned :: "'a res \<Rightarrow> 'a option" where
  "returned (Ret v s) = Some v"
| "returned (Exit e s) = None"
| "returned Undef = None"

fun final_state :: "'a res \<Rightarrow> state option" where
  "final_state (Ret v s) = Some s"
| "final_state (Exit e s) = Some s"
| "final_state Undef = None"

fun exited :: "'a res \<Rightarrow> int option" where
  "exited (Ret v s) = None"
| "exited (Exit e s) = Some e"
| "exited Undef = None"

text \<open>The bytes of the persisted state file, when it exists.\<close>

definition state_file :: "state \<Rightarrow> string option" where
  "state_file s = map_option bytes (fs s pwr_state_path)"

text \<open>
  The tokens of the command line: the action a token selects in \<open>parse_args\<close>, the
  no-restart flag, and the arguments \<open>parse_args\<close> accepts.
\<close>

definition token_action :: "string \<Rightarrow> action option" where
  "token_action arg =
     (if arg = ''perform'' \<or> arg = ''pe'' then Some Action_perform
      else if arg = ''powersave'' \<or> arg = ''ps'' then Some Action_powersave
      else if arg = ''query'' \<or> arg = ''qu'' then Some Action_query
      else if arg = ''toggle'' \<or> arg = ''to'' then Some Action_toggle
      else if arg = ''--help'' then Some Action_help
      else if arg = ''--version'' then Some Action_version
      else None)"

definition is_norestart :: "string \<Rightarrow> bool" where
  "is_norestart arg = (arg = ''--norestart'' \<or> arg = ''-n'')"

definition recognized :: "string \<Rightarrow> bool" where
  "recognized arg = (token_action arg \<noteq> None \<or> is_norestart arg)"

definition state_token :: "string \<Rightarrow> bool" where
  "state_token arg = (arg \<in> {''query'', ''qu'', ''toggle'', ''to''})"

text \<open>\<open>S_ISREG\<close>: the file type bits of a mode (octal 0170000) say regular file (0100000).\<close>

definition S_ISREG :: "32 word \<Rightarrow> bool" where
  "S_ISREG m = (m AND 0xF000 = 0x8000)"

text \<open>The action left in \<open>flags.action\<close> by a run of the parser's loop over accepted arguments.\<close>

definition sel_action :: "action \<Rightarrow> string list \<Rightarrow> action" where
  "sel_action a0 args =
     foldl (\<lambda>a arg. case token_action arg of Some a' \<Rightarrow> a' | None \<Rightarrow> a) a0 args"

text \<open>
  What the steps of a transition leave alone: the identities of the process, the
  global \<open>ruid\<close> and the state file.
\<close>

definition unchanged :: "state \<Rightarrow> state \<Rightarrow> bool" where
  "unchanged s t =
     (ruid t = ruid s \<and> uid_real t = uid_real s \<and> euid t = euid s \<and> uid_saved t = uid_saved s
      \<and> state_file t = state_file s)"

text \<open>
  \<open>action_perform\<close> and \<open>action_powersave\<close> are one sequence of calls with four
  different string arguments.
\<close>

definition transition :: "string \<Rightarrow> string \<Rightarrow> string \<Rightarrow> string \<Rightarrow> state \<Rightarrow> int res" where
  "transition gov gpu wifi pst s =
     andthen (cpu_governor gov (seteuid 0 s)) (\<lambda>_ s.
     andthen (prime_select gpu s) (\<lambda>_ s.
     andthen (wifi_power wifi s) (\<lambda>_ s.
     andthen (restart_display_manager s) (\<lambda>_ s.
     andthen (set_pwr_state pst s) (\<lambda>_ s.
       Ret E_OK (seteuid (ruid s) s))))))"

definition transition_cpp :: "string \<Rightarrow> string \<Rightarrow> string \<Rightarrow> state \<Rightarrow> int res" where
  "transition_cpp gov gpu wifi s =
     andthen (cpu_governor_cpp gov (seteuid 0 s)) (\<lambda>_ s.
     andthen (prime_select_cpp gpu s) (\<lambda>_ s.
     andthen (wifi_power_cpp wifi s) (\<lambda>_ s.
     andthen (restart_display_manager_cpp s) (\<lambda>_ s.
       Ret E_OK (seteuid (ruid s) s)))))"

text \<open>
  Two final states with the same programs started, the same effective identity and the
  same files, the state file apart.
\<close>

definition same_effects :: "state \<Rightarrow> state \<Rightarrow> bool" where
  "same_effects t' t =
     (launched t' = launched t \<and> euid t' = euid t
      \<and> (\<forall>q. q \<noteq> pwr_state_path \<longrightarrow> fs t' q = fs t q))"

text \<open>
  \<open>ends r Q E\<close>: if the call returned, \<open>Q\<close> holds of the value and the state; if it
  ended the process, \<open>E\<close> holds of the status and the state. \<open>fatal\<close>: the statuses
  with which a transition can end the process.
\<close>

definition ends :: "'a res \<Rightarrow> ('a \<Rightarrow> state \<Rightarrow> bool) \<Rightarrow> (int \<Rightarrow> state \<Rightarrow> bool) \<Rightarrow> bool" where
  "ends r Q E = (case r of Ret v t \<Rightarrow> Q v t | Exit e t \<Rightarrow> E e t | Undef \<Rightarrow> True)"

definition fatal :: "int set" where
  "fatal = {E_CPUFREQ_WRITE, E_PWR_STATE_WRITE, E_FORK_FAILED}"

subsection \<open>Example machines\<close>

definition cfg0 :: config where
  "cfg0 = \<lparr>file_macro = ''pwr.c'', s_pwr_version = ''1.0'',
            pwr_version_major = ''1'', pwr_version_minor = ''0''\<rparr>"

text \<open>
  A laptop with two cores, a wireless interface, \<open>systemctl\<close> and \<open>iwconfig\<close> but no
  \<open>prime-select\<close>, and a state file that says \<open>powersave\<close>. The program was started by
  root with effective user 1000; only user 0 may write.
\<close>

definition laptop_files :: "string \<rightharpoonup> inode" where
  "laptop_files =
     [''/bin/systemctl'' \<mapsto> \<lparr>st_mode = 0x81ED, bytes = []\<rparr>,
      ''/sbin/iwconfig'' \<mapsto> \<lparr>st_mode = 0x81ED, bytes = []\<rparr>,
      ''/sys/devices/system/cpu/cpu0/cpufreq/scaling_governor'' \<mapsto>
         \<lparr>st_mode = 0x81A4, bytes = ''powersave'' @ [NL]\<rparr>,
      ''/sys/devices/system/cpu/cpu1/cpufreq/scaling_governor'' \<mapsto>
         \<lparr>st_mode = 0x81A4, bytes = ''powersave'' @ [NL]\<rparr>]"

definition laptop :: state where
  "laptop =
     \<lparr>ruid = 0, flags = \<lparr>program_name = [], action = Action_none, no_restart = 0\<rparr>,
      uid_real = 0, euid = 1000, uid_saved = 1000,
      fs = laptop_files(''/var/lib/pwr_state'' \<mapsto> \<lparr>st_mode = 0x81A4, bytes = ''powersave'' @ [NL]\<rparr>),
      rperm = (\<lambda>u p. True), wperm = (\<lambda>u p. u = 0), creat_mode = 0x81A4,
      glob_cpus = [''0'', ''1''], ifaddrs = Some [''lo'', ''wlp2s0''],
      forks_left = 4, errno_msg = ''Permission denied'',
      launched = [], out = [], err = [], cfg = cfg0\<rparr>"

text \<open>The same laptop before any transition: there is no state file.\<close>

definition fresh_laptop :: state where
  "fresh_laptop = laptop\<lparr>fs := laptop_files, errno_msg := ''No such file or directory''\<rparr>"

text \<open>The laptop with a read-only \<open>/sys\<close> and \<open>/var\<close>: nobody may open a file for writing.\<close>

definition readonly_laptop :: state where
  "readonly_laptop = laptop\<lparr>wperm := (\<lambda>u p. False), errno_msg := ''Read-only file system''\<rparr>"

text \<open>The laptop with wired interfaces only.\<close>

definition wired_laptop :: state where
  "wired_laptop = laptop\<lparr>ifaddrs := Some [''lo'', ''eth0'']\<rparr>"

text \<open>A machine where \<open>/usr/bin/prime-select\<close> is a directory, mode \<open>drwxr-xr-x\<close>.\<close>

definition dir_laptop :: state where
  "dir_laptop = laptop\<lparr>fs := laptop_files(''/usr/bin/prime-select'' \<mapsto> \<lparr>st_mode = 0x41ED, bytes = []\<rparr>)\<rparr>"

section \<open>Basic facts\<close>

lemma andthen_simps [simp]:
  "andthen (Ret v s) k = k v s"
  "andthen (Exit e s) k = Exit e s"
  "andthen Undef k = Undef"
  by (simp_all add: andthen_def)

lemmas errors_defs = E_OK_def E_NO_ACTION_def E_BAD_ARG_def E_CPUFREQ_WRITE_def
  E_PWR_STATE_WRITE_def E_PWR_STATE_READ_def E_FORK_FAILED_def

lemmas example_defs = laptop_def fresh_laptop_def readonly_laptop_def wired_laptop_def
  dir_laptop_def laptop_files_def cfg0_def

section \<open>The command line\<close>

lemma token_action_cases:
  "token_action a = Some act \<Longrightarrow>
     (a = ''perform'' \<or> a = ''pe'') \<and> act = Action_perform
   \<or> (a = ''powersave'' \<or> a = ''ps'') \<and> act = Action_powersave
   \<or> (a = ''query'' \<or> a = ''qu'') \<and> act = Action_query
   \<or> (a = ''toggle'' \<or> a = ''to'') \<and> act = Action_toggle
   \<or> a = ''--help'' \<and> act = Action_help
   \<or> a = ''--version'' \<and> act = Action_version"
  unfolding token_action_def by (simp split: if_split_asm)

lemma token_action_None:
  "token_action a = None \<Longrightarrow>
     a \<noteq> ''perform'' \<and> a \<noteq> ''pe'' \<and> a \<noteq> ''powersave'' \<and> a \<noteq> ''ps''
   \<and> a \<noteq> ''query'' \<and> a \<noteq> ''qu'' \<and> a \<noteq> ''toggle'' \<and> a \<noteq> ''to''
   \<and> a \<noteq> ''--help'' \<and> a \<noteq> ''--version''"
  unfolding token_action_def by (simp split: if_split_asm)

lemma token_action_norestart: "is_norestart a \<Longrightarrow> token_action a = None"
  unfolding is_norestart_def token_action_def by (elim disjE) simp_all

lemma recognized_cases:
  "recognized a \<Longrightarrow> (\<exists>act. token_action a = Some act) \<or> is_norestart a"
  by (auto simp: recognized_def)

lemma parse_step_action:
  assumes "token_action a = Some act"
  shows "parse_args_loop (a # rest) s =
         parse_args_loop rest (s\<lparr>flags := (flags s)\<lparr>action := act\<rparr>\<rparr>)"
  using token_action_cases [OF assms] by (elim disjE conjE) simp_all

lemma parse_step_norestart:
  "is_norestart a \<Longrightarrow>
   parse_args_loop (a # rest) s =
   parse_args_loop rest (s\<lparr>flags := (flags s)\<lparr>no_restart := 1\<rparr>\<rparr>)"
  unfolding is_norestart_def by (elim disjE) simp_all

lemma parse_step_bad:
  assumes "\<not> recognized a"
  shows "parse_args_loop (a # rest) s =
         (E_BAD_ARG, eprintf (''Bad argument encountered: '' @ a @ [NL]) s)"
proof -
  from assms have n: "token_action a = None" and r: "a \<noteq> ''--norestart''" "a \<noteq> ''-n''"
    by (simp_all add: recognized_def is_norestart_def)
  from token_action_None [OF n] r show ?thesis by simp
qed

declare parse_args_loop.simps(2) [simp del]

lemma parse_args_loop_recognized:
  "\<forall>a\<in>set args. recognized a \<Longrightarrow>
   parse_args_loop args s =
     (E_OK, s\<lparr>flags := (flags s)\<lparr>action := sel_action (action (flags s)) args,
               no_restart := (if \<exists>a\<in>set args. is_norestart a then 1
                              else no_restart (flags s))\<rparr>\<rparr>)"
proof (induction args arbitrary: s)
  case Nil
  then show ?case by (simp add: sel_action_def)
next
  case (Cons a args)
  then have rec: "recognized a" and rest: "\<forall>a\<in>set args. recognized a" by simp_all
  from recognized_cases [OF rec] show ?case
  proof
    assume "\<exists>act. token_action a = Some act"
    then obtain act where act: "token_action a = Some act" ..
    then have nr: "\<not> is_norestart a" using token_action_norestart by fastforce
    show ?thesis
      by (simp add: parse_step_action [OF act] Cons.IH [OF rest] sel_action_def act nr)
  next
    assume nr: "is_norestart a"
    show ?thesis
      by (simp add: parse_step_norestart [OF nr] Cons.IH [OF rest] sel_action_def
            token_action_norestart [OF nr] nr)
  qed
qed

lemma parse_args_loop_bad:
  "\<not> (\<forall>a\<in>set args. recognized a) \<Longrightarrow> fst (parse_args_loop args s) = E_BAD_ARG"
proof (induction args arbitrary: s)
  case Nil
  then show ?case by simp
next
  case (Cons a args)
  show ?case
  proof (cases "recognized a")
    case False
    then show ?thesis by (simp add: parse_step_bad)
  next
    case True
    with Cons.prems have rest: "\<not> (\<forall>a\<in>set args. recognized a)" by simp
    from recognized_cases [OF True] show ?thesis
    proof
      assume "\<exists>act. token_action a = Some act"
      then obtain act where act: "token_action a = Some act" ..
      show ?thesis by (simp add: parse_step_action [OF act] Cons.IH [OF rest])
    next
      assume nr: "is_norestart a"
      show ?thesis by (simp add: parse_step_norestart [OF nr] Cons.IH [OF rest])
    qed
  qed
qed

lemma sel_action_last:
  assumes a: "token_action a = Some act" and ys: "\<forall>y\<in>set ys. is_norestart y"
  shows "sel_action a0 (xs @ a # ys) = act"
proof -
  have "\<And>b. foldl (\<lambda>a arg. case token_action arg of Some a' \<Rightarrow> a' | None \<Rightarrow> a) b ys = b"
    using ys by (induction ys) (simp_all add: token_action_norestart)
  then show ?thesis by (simp add: sel_action_def a)
qed

lemma main_recognized:
  assumes "\<forall>a\<in>set args. recognized a"
  shows "main argv0 args s =
         run_action (sel_action Action_none args)
           (s\<lparr>ruid := euid s,
              flags := \<lparr>program_name = argv0, action = sel_action Action_none args,
                        no_restart = (if \<exists>a\<in>set args. is_norestart a then 1 else 0)\<rparr>\<rparr>)"
  by (simp add: main_def parse_args_def geteuid_def parse_args_loop_recognized [OF assms]
        E_OK_def)

section \<open>Several action tokens\<close>

text \<open>
  Claim C10. When the command line holds more than one action token, parsing succeeds and
  only the action named by the last action token is run: for accepted arguments \<open>xs\<close>,
  an action token \<open>a\<close> and no-restart flags \<open>ys\<close> after it, \<open>parse_args\<close> returns
  \<open>E_OK\<close> with the action of \<open>a\<close> in \<open>flags.action\<close>, \<open>main\<close> runs that action, and
  the run is the one of the command line without the action tokens of \<open>xs\<close>.
\<close>

theorem last_action_token_wins:
  assumes xs: "\<forall>x\<in>set xs. recognized x"
    and a: "token_action a = Some act"
    and ys: "\<forall>y\<in>set ys. is_norestart y"
  shows "fst (parse_args argv0 (xs @ a # ys) s) = E_OK
       \<and> action (flags (snd (parse_args argv0 (xs @ a # ys) s))) = act
       \<and> main argv0 (xs @ a # ys) s =
           run_action act (snd (parse_args argv0 (xs @ a # ys) (s\<lparr>ruid := geteuid s\<rparr>)))
       \<and> main argv0 (xs @ a # ys) s = main argv0 (filter is_norestart xs @ a # ys) s"
proof -
  have ra: "recognized a" using a by (simp add: recognized_def)
  have rys: "\<forall>y\<in>set ys. recognized y" using ys by (simp add: recognized_def)
  have all: "\<forall>x\<in>set (xs @ a # ys). recognized x" using xs ra rys by auto
  have all': "\<forall>x\<in>set (filter is_norestart xs @ a # ys). recognized x"
    using xs ra rys by auto
  have sel: "sel_action Action_none (xs @ a # ys) = act"
    by (rule sel_action_last [OF a ys])
  have sel': "sel_action Action_none (filter is_norestart xs @ a # ys) = act"
    by (rule sel_action_last [OF a ys])
  have nr: "(\<exists>x\<in>set (filter is_norestart xs @ a # ys). is_norestart x)
          = (\<exists>x\<in>set (xs @ a # ys). is_norestart x)"
    by auto
  have p: "\<And>t. parse_args argv0 (xs @ a # ys) t =
      (E_OK, t\<lparr>flags := \<lparr>program_name = argv0, action = act,
                 no_restart = (if \<exists>x\<in>set (xs @ a # ys). is_norestart x then 1 else 0)\<rparr>\<rparr>)"
    unfolding parse_args_def parse_args_loop_recognized [OF all] by (simp add: sel)
  have m1: "main argv0 (xs @ a # ys) s =
      run_action act (snd (parse_args argv0 (xs @ a # ys) (s\<lparr>ruid := geteuid s\<rparr>)))"
    unfolding main_recognized [OF all] sel p by (simp add: geteuid_def)
  have m2: "main argv0 (xs @ a # ys) s = main argv0 (filter is_norestart xs @ a # ys) s"
    unfolding main_recognized [OF all] main_recognized [OF all'] sel sel' nr ..
  show ?thesis using m1 m2 by (simp add: p)
qed

theorem last_action_token_wins_witness:
  "recognized ''perform'' \<and> recognized ''-n'' \<and> recognized ''toggle''
   \<and> token_action ''--version'' = Some Action_version
   \<and> is_norestart ''--norestart''
   \<and> fst (parse_args ''pwr''
        ([''perform'', ''-n'', ''toggle''] @ ''--version'' # [''--norestart'']) laptop) = E_OK
   \<and> main ''pwr'' ([''perform'', ''-n'', ''toggle''] @ ''--version'' # [''--norestart'']) laptop
       = main ''pwr'' [''-n'', ''--version'', ''--norestart''] laptop"
proof -
  have r: "recognized ''perform''" "recognized ''-n''" "recognized ''toggle''"
    by (simp_all add: recognized_def token_action_def is_norestart_def)
  then have h1: "\<forall>x\<in>set [''perform'', ''-n'', ''toggle'']. recognized x"
    by simp
  have h2: "token_action ''--version'' = Some Action_version"
    by (simp add: token_action_def)
  have n: "is_norestart ''--norestart''"
    by (simp add: is_norestart_def)
  then have h3: "\<forall>y\<in>set [''--norestart'']. is_norestart y"
    by simp
  have f: "filter is_norestart [''perform'', ''-n'', ''toggle''] = [''-n'']"
    by (simp add: is_norestart_def)
  note t = last_action_token_wins [OF h1 h2 h3, of "''pwr''" laptop, unfolded f]
  from t have c1: "fst (parse_args ''pwr''
      ([''perform'', ''-n'', ''toggle''] @ ''--version'' # [''--norestart'']) laptop) = E_OK"
    by (rule conjunct1)
  from t have "main ''pwr''
        ([''perform'', ''-n'', ''toggle''] @ ''--version'' # [''--norestart'']) laptop
       = main ''pwr'' ([''-n''] @ ''--version'' # [''--norestart'']) laptop"
    by blast
  then have c4: "main ''pwr''
        ([''perform'', ''-n'', ''toggle''] @ ''--version'' # [''--norestart'']) laptop
       = main ''pwr'' [''-n'', ''--version'', ''--norestart''] laptop"
    by simp
  show ?thesis by (intro conjI r h2 n c1 c4)
qed

section \<open>The steps of a transition\<close>

lemma andthen_Ret:
  "andthen r k = Ret v s' \<longleftrightarrow> (\<exists>u t. r = Ret u t \<and> k u t = Ret v s')"
  by (cases r) simp_all

lemma andthen_Exit:
  "andthen r k = Exit e s' \<longleftrightarrow> r = Exit e s' \<or> (\<exists>u t. r = Ret u t \<and> k u t = Exit e s')"
  by (cases r) simp_all

lemma andthen_Undef:
  "andthen r k = Undef \<longleftrightarrow> r = Undef \<or> (\<exists>u t. r = Ret u t \<and> k u t = Undef)"
  by (cases r) simp_all

lemma ehandle_simps [simp]:
  "ehandle False eid line s = Ret () s"
  "ehandle True eid line s =
     Exit eid (eprintf (''Error on '' @ file_macro (cfg s) @ '':'' @ line @ '': ''
                          @ errno_msg s @ [NL]) s)"
  by (simp_all add: ehandle_def)

lemma unchanged_refl [simp]: "unchanged s s"
  by (simp add: unchanged_def)

lemma unchanged_trans: "unchanged s t \<Longrightarrow> unchanged t u \<Longrightarrow> unchanged s u"
  by (simp add: unchanged_def)

lemma unchanged_eprintf [simp]: "unchanged s (eprintf m s)"
  by (simp add: unchanged_def eprintf_def state_file_def)

lemma fexecl_Ret: "fexecl l p a s = Ret u t \<Longrightarrow> unchanged s t"
  by (cases "forks_left s = 0") (auto simp: fexecl_def unchanged_def state_file_def)

lemma fexecl_Exit: "fexecl l p a s = Exit e t \<Longrightarrow> unchanged s t \<and> e = E_FORK_FAILED"
  by (cases "forks_left s = 0") (auto simp: fexecl_def)

lemma prime_select_Ret: "prime_select c s = Ret u t \<Longrightarrow> unchanged s t"
  by (auto simp: prime_select_def split: if_splits dest: fexecl_Ret)

lemma prime_select_Exit: "prime_select c s = Exit e t \<Longrightarrow> unchanged s t \<and> e = E_FORK_FAILED"
  by (auto simp: prime_select_def split: if_splits dest: fexecl_Exit)

lemma restart_display_manager_Ret: "restart_display_manager s = Ret u t \<Longrightarrow> unchanged s t"
  by (auto simp: restart_display_manager_def split: if_splits dest: fexecl_Ret)

lemma restart_display_manager_Exit:
  "restart_display_manager s = Exit e t \<Longrightarrow> unchanged s t \<and> e = E_FORK_FAILED"
  by (auto simp: restart_display_manager_def split: if_splits dest: fexecl_Exit)

lemma wlan_name_Ret: "wlan_name s = Ret u t \<Longrightarrow> t = s"
  by (auto simp: wlan_name_def Let_def split: option.splits prod.splits list.splits if_splits)

lemma wlan_name_Exit: "wlan_name s \<noteq> Exit e t"
  by (auto simp: wlan_name_def Let_def split: option.splits prod.splits list.splits if_splits)

lemma wifi_power_Ret: "wifi_power p s = Ret u t \<Longrightarrow> unchanged s t"
  by (auto simp: wifi_power_def andthen_Ret split: if_splits dest: fexecl_Ret wlan_name_Ret)

lemma wifi_power_Exit: "wifi_power p s = Exit e t \<Longrightarrow> unchanged s t \<and> e = E_FORK_FAILED"
  by (auto simp: wifi_power_def andthen_Exit wlan_name_Exit split: if_splits
        dest: fexecl_Exit wlan_name_Ret)


lemma glob_governors_not_state [simp]: "pwr_state_path \<notin> set (glob_governors s)"
  by (auto simp: glob_governors_def pwr_state_path_def)

lemma write_file:
  "wperm s (euid s) p \<Longrightarrow>
   fprint_close p txt (the (fopen_w s p)) =
     s\<lparr>fs := (fs s)(p \<mapsto> (case fs s p of
                              None \<Rightarrow> \<lparr>st_mode = creat_mode s, bytes = txt\<rparr>
                            | Some f \<Rightarrow> f\<lparr>bytes := txt\<rparr>))\<rparr>"
  by (simp add: fopen_w_def fprint_close_def split: option.splits)

lemma fopen_w_None [simp]: "fopen_w s p = None \<longleftrightarrow> \<not> wperm s (euid s) p"
  by (simp add: fopen_w_def)

lemma cpu_governor_loop_step:
  "cpu_governor_loop (p # ps) rule s =
     (if wperm s (euid s) p
      then cpu_governor_loop ps rule
             (s\<lparr>fs := (fs s)(p \<mapsto> (case fs s p of
                              None \<Rightarrow> \<lparr>st_mode = creat_mode s, bytes = rule @ [NL]\<rparr>
                            | Some f \<Rightarrow> f\<lparr>bytes := rule @ [NL]\<rparr>))\<rparr>)
      else Exit E_CPUFREQ_WRITE
             (eprintf (''Error on '' @ file_macro (cfg s) @ '':156: '' @ errno_msg s @ [NL]) s))"
  by (simp add: Let_def write_file)

declare cpu_governor_loop.simps(2) [simp del]

lemma cpu_governor_loop_Ret:
  "cpu_governor_loop ps rule s = Ret u t \<Longrightarrow> pwr_state_path \<notin> set ps \<Longrightarrow> unchanged s t"
proof (induction ps arbitrary: s)
  case Nil
  then show ?case by simp
next
  case (Cons p ps)
  let ?s1 = "s\<lparr>fs := (fs s)(p \<mapsto> (case fs s p of
                              None \<Rightarrow> \<lparr>st_mode = creat_mode s, bytes = rule @ [NL]\<rparr>
                            | Some f \<Rightarrow> f\<lparr>bytes := rule @ [NL]\<rparr>))\<rparr>"
  from Cons.prems have w: "wperm s (euid s) p" and r: "cpu_governor_loop ps rule ?s1 = Ret u t"
    by (auto simp: cpu_governor_loop_step split: if_splits)
  from Cons.prems have "unchanged s ?s1" by (auto simp: unchanged_def state_file_def)
  moreover from Cons.IH [OF r] Cons.prems have "unchanged ?s1 t" by simp
  ultimately show ?case by (rule unchanged_trans)
qed

lemma cpu_governor_loop_Exit:
  "cpu_governor_loop ps rule s = Exit e t \<Longrightarrow> pwr_state_path \<notin> set ps \<Longrightarrow>
   unchanged s t \<and> e = E_CPUFREQ_WRITE"
proof (induction ps arbitrary: s)
  case Nil
  then show ?case by simp
next
  case (Cons p ps)
  let ?s1 = "s\<lparr>fs := (fs s)(p \<mapsto> (case fs s p of
                              None \<Rightarrow> \<lparr>st_mode = creat_mode s, bytes = rule @ [NL]\<rparr>
                            | Some f \<Rightarrow> f\<lparr>bytes := rule @ [NL]\<rparr>))\<rparr>"
  show ?case
  proof (cases "wperm s (euid s) p")
    case False
    with Cons.prems show ?thesis by (auto simp: cpu_governor_loop_step)
  next
    case True
    with Cons.prems have r: "cpu_governor_loop ps rule ?s1 = Exit e t"
      by (simp add: cpu_governor_loop_step)
    from Cons.prems have u: "unchanged s ?s1" by (auto simp: unchanged_def state_file_def)
    from Cons.IH [OF r] Cons.prems have "unchanged ?s1 t \<and> e = E_CPUFREQ_WRITE" by simp
    with u show ?thesis by (blast intro: unchanged_trans)
  qed
qed

lemma cpu_governor_Ret: "cpu_governor rule s = Ret u t \<Longrightarrow> unchanged s t"
  unfolding cpu_governor_def by (erule cpu_governor_loop_Ret) simp

lemma cpu_governor_Exit:
  "cpu_governor rule s = Exit e t \<Longrightarrow> unchanged s t \<and> e = E_CPUFREQ_WRITE"
  unfolding cpu_governor_def by (erule cpu_governor_loop_Exit) simp

lemma set_pwr_state_eq:
  "set_pwr_state v s =
     (if wperm s (euid s) pwr_state_path
      then Ret () (s\<lparr>fs := (fs s)(pwr_state_path \<mapsto> (case fs s pwr_state_path of
                              None \<Rightarrow> \<lparr>st_mode = creat_mode s, bytes = v @ [NL]\<rparr>
                            | Some f \<Rightarrow> f\<lparr>bytes := v @ [NL]\<rparr>))\<rparr>)
      else Exit E_PWR_STATE_WRITE
             (eprintf (''Error on '' @ file_macro (cfg s) @ '':184: '' @ errno_msg s @ [NL]) s))"
  by (simp add: set_pwr_state_def Let_def write_file)

lemma get_pwr_state_eq:
  "get_pwr_state s =
     (case fopen_r s pwr_state_path of
        None \<Rightarrow> Exit E_PWR_STATE_READ
             (eprintf (''Error on '' @ file_macro (cfg s) @ '':167: '' @ errno_msg s @ [NL]) s)
      | Some content \<Rightarrow>
          if content = [] then Undef
          else Ret (takeWhile (\<lambda>c. c \<noteq> NL \<and> c \<noteq> NUL) content) s)"
proof (cases "fopen_r s pwr_state_path")
  case None
  then show ?thesis by (simp add: get_pwr_state_def)
next
  case (Some content)
  have "takeWhile (\<lambda>c. c \<noteq> NL) (c_str (takeWhile (\<lambda>c. c \<noteq> NL) content @ rest))
        = takeWhile (\<lambda>c. c \<noteq> NL \<and> c \<noteq> NUL) content"
    if "rest = [] \<and> NL \<notin> set content \<or> rest = [NL]" for rest
    using that unfolding c_str_def
    by (induction content) auto
  then show ?thesis using Some
    by (simp add: get_pwr_state_def getline_def)
qed

lemma action_perform_transition:
  "action_perform = transition ''performance'' ''nvidia'' ''off'' ''perform''"
  by (rule ext) (simp add: action_perform_def transition_def)

lemma action_powersave_transition:
  "action_powersave = transition ''powersave'' ''intel'' ''on'' ''powersave''"
  by (rule ext) (simp add: action_powersave_def transition_def)

lemma set_pwr_state_Ret:
  "set_pwr_state v s = Ret u t \<Longrightarrow>
   state_file t = Some (v @ [NL]) \<and> ruid t = ruid s \<and> uid_real t = uid_real s
   \<and> euid t = euid s \<and> uid_saved t = uid_saved s"
  by (auto simp: set_pwr_state_eq state_file_def split: if_splits option.splits)

lemma set_pwr_state_Exit:
  "set_pwr_state v s = Exit e t \<Longrightarrow> unchanged s t \<and> e = E_PWR_STATE_WRITE"
  by (auto simp: set_pwr_state_eq split: if_splits)

lemma ends_andthen:
  "ends r P E \<Longrightarrow> (\<And>v t. P v t \<Longrightarrow> ends (k v t) Q E) \<Longrightarrow> ends (andthen r k) Q E"
  by (cases r) (simp_all add: ends_def)

lemma ends_RetD: "ends r Q E \<Longrightarrow> r = Ret v t \<Longrightarrow> Q v t"
  by (simp add: ends_def)

lemma ends_ExitD: "ends r Q E \<Longrightarrow> r = Exit e t \<Longrightarrow> E e t"
  by (simp add: ends_def)

lemma ends_step:
  assumes o: "unchanged s0 s"
    and r: "\<And>u t. r = Ret u t \<Longrightarrow> unchanged s t"
    and e: "\<And>e t. r = Exit e t \<Longrightarrow> unchanged s t \<and> e \<in> fatal"
  shows "ends r (\<lambda>_ t. unchanged s0 t) (\<lambda>e t. unchanged s0 t \<and> e \<in> fatal)"
proof (cases r)
  case (Ret u t)
  with r [OF Ret] o show ?thesis by (simp add: ends_def unchanged_trans [of s0 s t])
next
  case (Exit e t)
  with e [OF Exit] o show ?thesis by (simp add: ends_def unchanged_trans [of s0 s t])
next
  case Undef
  then show ?thesis by (simp add: ends_def)
qed

lemma ends_cpu_governor:
  "unchanged s0 s \<Longrightarrow>
   ends (cpu_governor g s) (\<lambda>_ t. unchanged s0 t) (\<lambda>e t. unchanged s0 t \<and> e \<in> fatal)"
  by (erule ends_step) (simp_all add: cpu_governor_Ret cpu_governor_Exit fatal_def)

lemma ends_prime_select:
  "unchanged s0 s \<Longrightarrow>
   ends (prime_select c s) (\<lambda>_ t. unchanged s0 t) (\<lambda>e t. unchanged s0 t \<and> e \<in> fatal)"
  by (erule ends_step) (simp_all add: prime_select_Ret prime_select_Exit fatal_def)

lemma ends_wifi_power:
  "unchanged s0 s \<Longrightarrow>
   ends (wifi_power w s) (\<lambda>_ t. unchanged s0 t) (\<lambda>e t. unchanged s0 t \<and> e \<in> fatal)"
  by (erule ends_step) (simp_all add: wifi_power_Ret wifi_power_Exit fatal_def)

lemma ends_restart_display_manager:
  "unchanged s0 s \<Longrightarrow>
   ends (restart_display_manager s) (\<lambda>_ t. unchanged s0 t)
     (\<lambda>e t. unchanged s0 t \<and> e \<in> fatal)"
  by (erule ends_step)
    (simp_all add: restart_display_manager_Ret restart_display_manager_Exit fatal_def)


lemma ends_set_pwr_state:
  assumes "unchanged a s"
  shows "ends (andthen (set_pwr_state p s) (\<lambda>_ s. Ret E_OK (seteuid (ruid s) s)))
     (\<lambda>r t. r = E_OK \<and> state_file t = Some (p @ [NL]) \<and> ruid t = ruid a
          \<and> uid_real t = uid_real a \<and> uid_saved t = uid_saved a
          \<and> euid t = euid (seteuid (ruid a) a))
     (\<lambda>e t. unchanged a t \<and> e \<in> fatal)"
proof (cases "wperm s (euid s) pwr_state_path")
  case True
  with assms show ?thesis
    by (auto simp: set_pwr_state_eq ends_def unchanged_def seteuid_def state_file_def
          split: option.splits)
next
  case False
  with assms show ?thesis
    by (simp add: set_pwr_state_eq ends_def unchanged_def eprintf_def state_file_def fatal_def)
qed

lemma ends_transition:
  "ends (transition g c w p s)
     (\<lambda>r t. r = E_OK \<and> state_file t = Some (p @ [NL]) \<and> ruid t = ruid s
          \<and> uid_real t = uid_real s \<and> uid_saved t = uid_saved s
          \<and> euid t = euid (seteuid (ruid s) (seteuid 0 s)))
     (\<lambda>e t. unchanged (seteuid 0 s) t \<and> e \<in> fatal)"
proof -
  have a: "ruid (seteuid 0 s) = ruid s" "uid_real (seteuid 0 s) = uid_real s"
    "uid_saved (seteuid 0 s) = uid_saved s"
    by (simp_all add: seteuid_def)
  have "ends (transition g c w p s)
     (\<lambda>r t. r = E_OK \<and> state_file t = Some (p @ [NL]) \<and> ruid t = ruid (seteuid 0 s)
          \<and> uid_real t = uid_real (seteuid 0 s) \<and> uid_saved t = uid_saved (seteuid 0 s)
          \<and> euid t = euid (seteuid (ruid (seteuid 0 s)) (seteuid 0 s)))
     (\<lambda>e t. unchanged (seteuid 0 s) t \<and> e \<in> fatal)"
    unfolding transition_def
    apply (rule ends_andthen, rule ends_cpu_governor, rule unchanged_refl)
    apply (rule ends_andthen, erule ends_prime_select)
    apply (rule ends_andthen, erule ends_wifi_power)
    apply (rule ends_andthen, erule ends_restart_display_manager)
    apply (erule ends_set_pwr_state)
    done
  then show ?thesis unfolding a .
qed

section \<open>Reading the state file\<close>

lemma main_query:
  assumes "tok = ''query'' \<or> tok = ''qu''"
  shows "main argv0 [tok] s =
     action_query (s\<lparr>ruid := euid s,
        flags := \<lparr>program_name = argv0, action = Action_query, no_restart = 0\<rparr>\<rparr>)"
proof -
  from assms have t: "token_action tok = Some Action_query"
    by (auto simp: token_action_def)
  then have r: "\<forall>a\<in>set [tok]. recognized a" by (simp add: recognized_def)
  have n: "\<not> is_norestart tok" using t token_action_norestart by fastforce
  show ?thesis
    unfolding main_recognized [OF r] by (simp add: sel_action_def t n)
qed

lemma fopen_r_globals [simp]:
  "fopen_r (s\<lparr>ruid := r, flags := f\<rparr>) p = fopen_r s p"
  by (simp add: fopen_r_def split: option.splits)

text \<open>Without a state file that can be read, a query ends at the guard of \<open>get_pwr_state\<close>.\<close>

lemma main_query_unreadable:
  assumes "fopen_r s pwr_state_path = None" and "tok = ''query'' \<or> tok = ''qu''"
  shows "main argv0 [tok] s = Exit E_PWR_STATE_READ
      (eprintf (''Error on '' @ file_macro (cfg s) @ '':167: '' @ errno_msg s @ [NL])
        (s\<lparr>ruid := euid s,
           flags := \<lparr>program_name = argv0, action = Action_query, no_restart = 0\<rparr>\<rparr>))"
  using assms(1) by (simp add: main_query [OF assms(2)] action_query_def get_pwr_state_eq)

text \<open>
  Claim C1 says that a query without a readable state file gets the default profile
  from the state read, prints it and exits with 0. On a laptop without a state file the
  state read returns nothing: \<open>ehandle\<close> ends the process with status 5, nothing is
  printed on standard output and one diagnostic line goes to standard error. The test
  and the \<open>return\<close> of the default that follow the guard in \<open>get_pwr_state\<close>, under the
  comment "Default if we can't read the file", are never reached.
\<close>

theorem query_without_state_file_exits:
  "fopen_r fresh_laptop pwr_state_path = None
   \<and> returned (get_pwr_state fresh_laptop) = None
   \<and> exited (get_pwr_state fresh_laptop) = Some E_PWR_STATE_READ
   \<and> exit_status (main ''pwr'' [''query''] fresh_laptop) = Some 5
   \<and> map_option out (final_state (main ''pwr'' [''query''] fresh_laptop)) = Some []
   \<and> map_option err (final_state (main ''pwr'' [''query''] fresh_laptop))
       = Some (''Error on pwr.c:167: No such file or directory'' @ [NL])"
proof -
  have h: "fopen_r fresh_laptop pwr_state_path = None"
    by (simp add: fopen_r_def example_defs pwr_state_path_def)
  have g: "returned (get_pwr_state fresh_laptop) = None"
    "exited (get_pwr_state fresh_laptop) = Some E_PWR_STATE_READ"
    using h by (simp_all add: get_pwr_state_eq)
  have m: "main ''pwr'' [''query''] fresh_laptop =
     action_query (fresh_laptop\<lparr>ruid := euid fresh_laptop,
        flags := \<lparr>program_name = ''pwr'', action = Action_query, no_restart = 0\<rparr>\<rparr>)"
    by (rule main_query) simp
  have h': "fopen_r (fresh_laptop\<lparr>ruid := euid fresh_laptop,
        flags := \<lparr>program_name = ''pwr'', action = Action_query, no_restart = 0\<rparr>\<rparr>)
        pwr_state_path = None"
    using h by simp
  have q: "exit_status (main ''pwr'' [''query''] fresh_laptop) = Some 5"
    "map_option out (final_state (main ''pwr'' [''query''] fresh_laptop)) = Some []"
    "map_option err (final_state (main ''pwr'' [''query''] fresh_laptop))
       = Some (''Error on pwr.c:167: No such file or directory'' @ [NL])"
    unfolding m using h'
    by (simp_all add: action_query_def get_pwr_state_eq errors_defs eprintf_def example_defs)
  show ?thesis by (intro conjI h g q)
qed

section \<open>Toggle\<close>

text \<open>The definitions that evaluate a transition on a given machine.\<close>

lemmas step_defs = transition_def cpu_governor_def glob_governors_def cpu_governor_loop_step
  prime_select_def wifi_power_def wlan_name_def restart_display_manager_def fexecl_def
  binary_exists_def stat_def c_nth_def S_IEXEC_def set_pwr_state_eq seteuid_def eprintf_def
  pwr_state_path_def

lemma Ret_the_final: "returned r = Some v \<Longrightarrow> r = Ret v (the (final_state r))"
  by (cases r) simp_all

lemma final_the: "exit_status r = Some v \<Longrightarrow> final_state r = Some (the (final_state r))"
  by (cases r) simp_all

lemmas main_defs = main_def parse_args_def parse_args_loop.simps geteuid_def

text \<open>With a state file that holds at least one byte, \<open>toggle\<close> decides on its first line.\<close>

lemma action_toggle_readable:
  assumes "fopen_r s pwr_state_path = Some content" and "content \<noteq> []"
  shows "action_toggle s =
        (if takeWhile (\<lambda>c. c \<noteq> NL \<and> c \<noteq> NUL) content = ''powersave''
         then action_perform s else action_powersave s)"
proof -
  from assms have "get_pwr_state s = Ret (takeWhile (\<lambda>c. c \<noteq> NL \<and> c \<noteq> NUL) content) s"
    by (simp add: get_pwr_state_eq)
  then show ?thesis by (simp add: action_toggle_def)
qed

text \<open>
  Claim C2 says that \<open>toggle\<close> runs the powersave transition for every state other than
  \<open>powersave\<close>, the absent one included. On a laptop without a state file \<open>pwr toggle\<close>
  runs no transition: the guard of \<open>get_pwr_state\<close> ends the process with status 5, no
  program is started and no state file is written, where \<open>pwr powersave\<close> on the same
  laptop exits with 0, starts two programs and writes the state file. The default that
  \<open>get_pwr_state\<close> holds for a file it cannot read would have sent \<open>toggle\<close> to the
  powersave transition; the guard before it keeps it from being returned.
\<close>

theorem toggle_without_state_file_exits:
  "fopen_r fresh_laptop pwr_state_path = None
   \<and> exit_status (main ''pwr'' [''toggle''] fresh_laptop) = Some 5
   \<and> map_option launched (final_state (main ''pwr'' [''toggle''] fresh_laptop)) = Some []
   \<and> map_option state_file (final_state (main ''pwr'' [''toggle''] fresh_laptop)) = Some None
   \<and> exit_status (main ''pwr'' [''powersave''] fresh_laptop) = Some 0
   \<and> map_option launched (final_state (main ''pwr'' [''powersave''] fresh_laptop))
       = Some [(''/sbin/iwconfig'', [''iwconfig'', ''wlp2s0'', ''power'', ''on'']),
               (''/bin/systemctl'', [''systemctl'', ''restart'', ''display-manager''])]
   \<and> map_option state_file (final_state (main ''pwr'' [''powersave''] fresh_laptop))
       = Some (Some (''powersave'' @ [NL]))"
proof -
  have h: "fopen_r fresh_laptop pwr_state_path = None"
    by (simp add: fopen_r_def example_defs pwr_state_path_def)
  have t: "exit_status (main ''pwr'' [''toggle''] fresh_laptop) = Some 5"
    "map_option launched (final_state (main ''pwr'' [''toggle''] fresh_laptop)) = Some []"
    "map_option state_file (final_state (main ''pwr'' [''toggle''] fresh_laptop)) = Some None"
    by (simp_all add: main_defs action_toggle_def get_pwr_state_eq fopen_r_def state_file_def
          eprintf_def example_defs errors_defs pwr_state_path_def)
  have p: "exit_status (main ''pwr'' [''powersave''] fresh_laptop) = Some 0"
    "map_option launched (final_state (main ''pwr'' [''powersave''] fresh_laptop))
       = Some [(''/sbin/iwconfig'', [''iwconfig'', ''wlp2s0'', ''power'', ''on'']),
               (''/bin/systemctl'', [''systemctl'', ''restart'', ''display-manager''])]"
    "map_option state_file (final_state (main ''pwr'' [''powersave''] fresh_laptop))
       = Some (Some (''powersave'' @ [NL]))"
    by (simp_all add: main_defs action_powersave_transition step_defs state_file_def
          example_defs errors_defs)
  show ?thesis by (intro conjI h t p)
qed

section \<open>The persisted state\<close>

lemma transition_state_file:
  "transition g c w p s = Ret r t \<Longrightarrow> state_file t = Some (p @ [NL])"
  using ends_transition [of g c w p s] by (simp add: ends_def)

lemma transition_final:
  assumes "final_state (transition g c w p s) = Some t"
  shows "state_file t = state_file s \<or> state_file t = Some (p @ [NL])"
proof (cases "transition g c w p s")
  case (Ret r t')
  with assms transition_state_file [OF Ret] show ?thesis by simp
next
  case (Exit e t')
  with ends_transition [of g c w p s] have "unchanged (seteuid 0 s) t'"
    by (simp add: ends_def)
  then have "state_file t' = state_file s"
    by (simp add: unchanged_def seteuid_def state_file_def)
  with assms Exit show ?thesis by simp
next
  case Undef
  with assms show ?thesis by simp
qed

lemma get_pwr_state_Ret: "get_pwr_state s = Ret v t \<Longrightarrow> t = s"
  by (auto simp: get_pwr_state_eq split: option.splits if_splits)

lemma get_pwr_state_Exit: "get_pwr_state s = Exit e t \<Longrightarrow> unchanged s t \<and> e = E_PWR_STATE_READ"
  by (auto simp: get_pwr_state_eq split: option.splits if_splits)

lemma run_action_state_file:
  assumes "final_state (run_action a s) = Some t"
  shows "state_file t = state_file s \<or> state_file t = Some (''perform'' @ [NL])
       \<or> state_file t = Some (''powersave'' @ [NL])"
proof (cases a)
  case Action_none
  with assms show ?thesis by (auto simp: action_none_def eprintf_def state_file_def)
next
  case Action_perform
  with assms transition_final [of "''performance''" "''nvidia''" "''off''" "''perform''" s t]
  show ?thesis by (auto simp: action_perform_transition)
next
  case Action_powersave
  with assms transition_final [of "''powersave''" "''intel''" "''on''" "''powersave''" s t]
  show ?thesis by (auto simp: action_powersave_transition)
next
  case Action_query
  with assms show ?thesis
    by (cases "get_pwr_state s")
      (auto simp: action_query_def puts_def state_file_def unchanged_def
         dest!: get_pwr_state_Ret get_pwr_state_Exit)
next
  case Action_toggle
  show ?thesis
  proof (cases "get_pwr_state s")
    case (Ret v s')
    then have "s' = s" by (rule get_pwr_state_Ret)
    with assms Action_toggle Ret
      transition_final [of "''performance''" "''nvidia''" "''off''" "''perform''" s t]
      transition_final [of "''powersave''" "''intel''" "''on''" "''powersave''" s t]
    show ?thesis
      by (auto simp: action_toggle_def action_perform_transition action_powersave_transition
            split: if_splits)
  next
    case (Exit e s')
    with assms Action_toggle get_pwr_state_Exit [OF Exit] show ?thesis
      by (auto simp: action_toggle_def unchanged_def)
  next
    case Undef
    with assms Action_toggle show ?thesis by (simp add: action_toggle_def)
  qed
next
  case Action_version
  with assms show ?thesis by (auto simp: action_version_def puts_def state_file_def)
next
  case Action_help
  have "fs (fold puts ls u) = fs u" for ls u
    by (induction ls arbitrary: u) (simp_all add: puts_def)
  with assms Action_help show ?thesis
    by (auto simp: action_help_def puts_def printf_def state_file_def)
qed

lemma parse_args_loop_fs: "fs (snd (parse_args_loop args s)) = fs s"
proof (induction args arbitrary: s)
  case Nil
  then show ?case by simp
next
  case (Cons a args)
  show ?case
  proof (cases "recognized a")
    case False
    then show ?thesis by (simp add: parse_step_bad eprintf_def)
  next
    case True
    from recognized_cases [OF True] show ?thesis
    proof
      assume "\<exists>act. token_action a = Some act"
      then obtain act where act: "token_action a = Some act" ..
      show ?thesis by (simp add: parse_step_action [OF act] Cons.IH)
    next
      assume nr: "is_norestart a"
      show ?thesis by (simp add: parse_step_norestart [OF nr] Cons.IH)
    qed
  qed
qed

lemma main_state_file:
  assumes "final_state (main argv0 args s) = Some t"
  shows "state_file t = state_file s \<or> state_file t = Some (''perform'' @ [NL])
       \<or> state_file t = Some (''powersave'' @ [NL])"
proof -
  obtain r s1 where p: "parse_args argv0 args (s\<lparr>ruid := geteuid s\<rparr>) = (r, s1)"
    by (cases "parse_args argv0 args (s\<lparr>ruid := geteuid s\<rparr>)")
  have "fs s1 = fs s"
    using parse_args_loop_fs [of args
        "s\<lparr>ruid := geteuid s, flags := \<lparr>program_name = argv0, action = Action_none, no_restart = 0\<rparr>\<rparr>"] p
    by (simp add: parse_args_def)
  then have sf: "state_file s1 = state_file s" by (simp add: state_file_def)
  show ?thesis
  proof (cases "r = E_OK")
    case True
    with assms p have "final_state (run_action (action (flags s1)) s1) = Some t"
      by (simp add: main_def)
    from run_action_state_file [OF this] sf show ?thesis by simp
  next
    case False
    with assms p sf show ?thesis by (simp add: main_def)
  qed
qed

text \<open>
  Claim C3, as amended. After every transition that returns, the state file holds exactly
  one line: the literal string \<open>perform\<close> (after the performance transition) or
  \<open>powersave\<close> (after the powersave transition), followed by a newline. No run of the
  program leaves anything else in the state file: at the end of every run the file is
  as it was at the start or holds one of these two lines.
\<close>

theorem state_file_contents:
  "(action_perform s = Ret r t \<longrightarrow> state_file t = Some (''perform'' @ [NL]))
   \<and> (action_powersave s = Ret r t \<longrightarrow> state_file t = Some (''powersave'' @ [NL]))
   \<and> (final_state (main argv0 args s) = Some t \<longrightarrow>
        state_file t = state_file s \<or> state_file t = Some (''perform'' @ [NL])
        \<or> state_file t = Some (''powersave'' @ [NL]))"
  using transition_state_file main_state_file
  by (simp add: action_perform_transition action_powersave_transition)

theorem state_file_contents_witness:
  "action_perform laptop = Ret 0 (the (final_state (action_perform laptop)))
   \<and> state_file (the (final_state (action_perform laptop))) = Some (''perform'' @ [NL])
   \<and> action_powersave laptop = Ret 0 (the (final_state (action_powersave laptop)))
   \<and> state_file (the (final_state (action_powersave laptop))) = Some (''powersave'' @ [NL])
   \<and> final_state (main ''pwr'' [''toggle''] laptop)
       = Some (the (final_state (main ''pwr'' [''toggle''] laptop)))
   \<and> state_file (the (final_state (main ''pwr'' [''toggle''] laptop)))
       = Some (''perform'' @ [NL])"
proof -
  let ?a = "the (final_state (action_perform laptop))"
  let ?b = "the (final_state (action_powersave laptop))"
  let ?c = "the (final_state (main ''pwr'' [''toggle''] laptop))"
  have h1: "action_perform laptop = Ret 0 ?a"
    by (rule Ret_the_final)
      (simp add: action_perform_transition step_defs example_defs errors_defs)
  have h2: "action_powersave laptop = Ret 0 ?b"
    by (rule Ret_the_final)
      (simp add: action_powersave_transition step_defs example_defs errors_defs)
  have h3: "final_state (main ''pwr'' [''toggle''] laptop) = Some ?c"
    by (rule final_the [of _ 0])
      (simp add: main_defs action_toggle_def get_pwr_state_eq fopen_r_def
         action_perform_transition step_defs example_defs errors_defs)
  note t = state_file_contents [of laptop 0 ?a]
  note u = state_file_contents [of laptop 0 ?b]
  note v = state_file_contents [of laptop 0 ?c "''pwr''" "[''toggle'']"]
  have c1: "state_file ?a = Some (''perform'' @ [NL])"
    using t h1 by blast
  have c2: "state_file ?b = Some (''powersave'' @ [NL])"
    using u h2 by blast
  have "state_file laptop = Some (''powersave'' @ [NL])"
    by (simp add: state_file_def example_defs pwr_state_path_def)
  moreover have "state_file ?c \<noteq> Some (''powersave'' @ [NL])"
    by (simp add: main_defs action_toggle_def get_pwr_state_eq fopen_r_def state_file_def
         action_perform_transition step_defs example_defs errors_defs)
  ultimately have c3: "state_file ?c = Some (''perform'' @ [NL])"
    using v h3 by auto
  show ?thesis by (intro conjI h1 h2 h3 c1 c2 c3)
qed

text \<open>
  Claim C3 as stated fails after the performance transition: the file then holds
  \<open>perform\<close> and a newline, which is neither \<open>performance\<close> nor \<open>powersave\<close>.
\<close>

theorem state_file_performance_counterexample:
  "returned (main ''pwr'' [''perform''] laptop) = Some 0
   \<and> map_option state_file (final_state (main ''pwr'' [''perform''] laptop))
       = Some (Some (''perform'' @ [NL]))
   \<and> ''perform'' @ [NL] \<noteq> ''performance'' @ [NL]
   \<and> ''perform'' @ [NL] \<noteq> ''powersave'' @ [NL]"
  by (simp add: main_defs state_file_def action_perform_transition step_defs example_defs
        errors_defs)

section \<open>The effective identity\<close>

lemma parse_args_loop_frame: "\<exists>f e. snd (parse_args_loop args s) = s\<lparr>flags := f, err := e\<rparr>"
proof (induction args arbitrary: s)
  case Nil
  show ?case
    by (rule exI [of _ "flags s"], rule exI [of _ "err s"]) simp
next
  case (Cons a args)
  show ?case
  proof (cases "recognized a")
    case False
    have "eprintf m s = s\<lparr>flags := flags s, err := err s @ m\<rparr>" for m
      by (simp add: eprintf_def)
    then show ?thesis unfolding parse_step_bad [OF False] snd_conv by blast
  next
    case True
    from recognized_cases [OF True] show ?thesis
    proof
      assume "\<exists>act. token_action a = Some act"
      then obtain act where act: "token_action a = Some act" ..
      from Cons.IH [of "s\<lparr>flags := (flags s)\<lparr>action := act\<rparr>\<rparr>"]
      show ?thesis by (auto simp: parse_step_action [OF act])
    next
      assume nr: "is_norestart a"
      from Cons.IH [of "s\<lparr>flags := (flags s)\<lparr>no_restart := 1\<rparr>\<rparr>"]
      show ?thesis by (auto simp: parse_step_norestart [OF nr])
    qed
  qed
qed

lemma transition_euid:
  "transition g c w p s = Ret r t \<Longrightarrow> ruid s = euid s \<Longrightarrow> euid t = euid s \<and> r = E_OK"
  using ends_transition [of g c w p s] by (auto simp: ends_def seteuid_def)

lemma run_action_euid:
  assumes "run_action a s = Ret r t" and "ruid s = euid s"
  shows "euid t = euid s"
proof (cases a)
  case Action_none
  with assms show ?thesis by (auto simp: action_none_def eprintf_def)
next
  case Action_perform
  with assms transition_euid show ?thesis by (auto simp: action_perform_transition)
next
  case Action_powersave
  with assms transition_euid show ?thesis by (auto simp: action_powersave_transition)
next
  case Action_query
  with assms show ?thesis
    by (auto simp: action_query_def puts_def andthen_Ret dest!: get_pwr_state_Ret)
next
  case Action_toggle
  with assms transition_euid show ?thesis
    by (auto simp: action_toggle_def andthen_Ret action_perform_transition
          action_powersave_transition split: if_splits dest!: get_pwr_state_Ret)
next
  case Action_version
  with assms show ?thesis by (auto simp: action_version_def puts_def)
next
  case Action_help
  have "euid (fold puts ls u) = euid u" for ls u
    by (induction ls arbitrary: u) (simp_all add: puts_def)
  with assms Action_help show ?thesis
    by (auto simp: action_help_def puts_def printf_def)
qed

lemma main_euid:
  assumes "main argv0 args s = Ret r t"
  shows "euid t = euid s"
proof -
  obtain c s1 where p: "parse_args argv0 args (s\<lparr>ruid := geteuid s\<rparr>) = (c, s1)"
    by (cases "parse_args argv0 args (s\<lparr>ruid := geteuid s\<rparr>)")
  from parse_args_loop_frame [of args
        "s\<lparr>ruid := geteuid s, flags := \<lparr>program_name = argv0, action = Action_none, no_restart = 0\<rparr>\<rparr>"] p
  obtain f e where "s1 = s\<lparr>ruid := geteuid s, flags := f, err := e\<rparr>"
    by (auto simp: parse_args_def)
  then have i: "euid s1 = euid s" "ruid s1 = euid s" by (simp_all add: geteuid_def)
  show ?thesis
  proof (cases "c = E_OK")
    case True
    with assms p have "run_action (action (flags s1)) s1 = Ret r t"
      by (simp add: main_def)
    from run_action_euid [OF this] i show ?thesis by simp
  next
    case False
    with assms p i show ?thesis by (simp add: main_def)
  qed
qed

text \<open>
  Claim C4, as amended. For every run of the perform or powersave transition that
  returns, the effective identity is again the one of the caller (the one \<open>main\<close> stored
  in \<open>ruid\<close>) when it returns; so it is at every return of \<open>main\<close>. Nothing is promised
  for a run that a failing step ends through \<open>exit\<close>.
\<close>

theorem identity_restored_on_return:
  "(ruid s = euid s \<and> action_perform s = Ret r t \<longrightarrow> euid t = euid s)
   \<and> (ruid s = euid s \<and> action_powersave s = Ret r t \<longrightarrow> euid t = euid s)
   \<and> (main argv0 args s = Ret r t \<longrightarrow> euid t = euid s)"
  using transition_euid main_euid
  by (auto simp: action_perform_transition action_powersave_transition)

theorem identity_restored_on_return_witness:
  "euid laptop = 1000
   \<and> main ''pwr'' [''perform''] laptop = Ret 0 (the (final_state (main ''pwr'' [''perform''] laptop)))
   \<and> euid (the (final_state (main ''pwr'' [''perform''] laptop))) = 1000
   \<and> ruid (laptop\<lparr>ruid := 1000\<rparr>) = euid (laptop\<lparr>ruid := 1000\<rparr>)
   \<and> action_powersave (laptop\<lparr>ruid := 1000\<rparr>)
       = Ret 0 (the (final_state (action_powersave (laptop\<lparr>ruid := 1000\<rparr>))))
   \<and> euid (the (final_state (action_powersave (laptop\<lparr>ruid := 1000\<rparr>)))) = 1000
   \<and> action_perform (laptop\<lparr>ruid := 1000\<rparr>)
       = Ret 0 (the (final_state (action_perform (laptop\<lparr>ruid := 1000\<rparr>))))
   \<and> euid (the (final_state (action_perform (laptop\<lparr>ruid := 1000\<rparr>)))) = 1000"
proof -
  let ?l = "laptop\<lparr>ruid := 1000\<rparr>"
  let ?a = "the (final_state (main ''pwr'' [''perform''] laptop))"
  let ?b = "the (final_state (action_powersave ?l))"
  let ?c = "the (final_state (action_perform ?l))"
  have e: "euid laptop = 1000" by (simp add: example_defs)
  have e': "ruid ?l = euid ?l" by (simp add: example_defs)
  have h1: "main ''pwr'' [''perform''] laptop = Ret 0 ?a"
    by (rule Ret_the_final)
      (simp add: main_defs action_perform_transition step_defs example_defs errors_defs)
  have h2: "action_powersave ?l = Ret 0 ?b"
    by (rule Ret_the_final)
      (simp add: action_powersave_transition step_defs example_defs errors_defs)
  have h3: "action_perform ?l = Ret 0 ?c"
    by (rule Ret_the_final)
      (simp add: action_perform_transition step_defs example_defs errors_defs)
  have c1: "euid ?a = 1000"
    using identity_restored_on_return [of laptop 0 ?a "''pwr''" "[''perform'']"] h1 e
    by simp
  have c2: "euid ?b = 1000"
    using identity_restored_on_return [of ?l 0 ?b] h2 e e' by simp
  have c3: "euid ?c = 1000"
    using identity_restored_on_return [of ?l 0 ?c] h3 e e' by simp
  show ?thesis by (intro conjI e e' h1 h2 h3 c1 c2 c3)
qed

text \<open>
  Claim C4 as stated fails when a governor file cannot be opened: the process, started
  with effective user 1000, exits with status 3 while its effective user is 0.
\<close>

theorem still_elevated_counterexample:
  "euid readonly_laptop = 1000
   \<and> exit_status (main ''pwr'' [''perform''] readonly_laptop) = Some 3
   \<and> map_option euid (final_state (main ''pwr'' [''perform''] readonly_laptop)) = Some 0"
  by (simp add: main_defs action_perform_transition step_defs example_defs errors_defs)

section \<open>The CPU governor\<close>


lemma cpu_governor_loop_fail:
  "\<exists>p\<in>set ps. \<not> wperm s (euid s) p \<Longrightarrow>
   \<exists>t. cpu_governor_loop ps rule s = Exit E_CPUFREQ_WRITE t"
proof (induction ps arbitrary: s)
  case Nil
  then show ?case by simp
next
  case (Cons p ps)
  let ?s1 = "s\<lparr>fs := (fs s)(p \<mapsto> (case fs s p of
                              None \<Rightarrow> \<lparr>st_mode = creat_mode s, bytes = rule @ [NL]\<rparr>
                            | Some f \<Rightarrow> f\<lparr>bytes := rule @ [NL]\<rparr>))\<rparr>"
  show ?case
  proof (cases "wperm s (euid s) p")
    case False
    then show ?thesis by (simp add: cpu_governor_loop_step)
  next
    case True
    with Cons.prems have "\<exists>q\<in>set ps. \<not> wperm ?s1 (euid ?s1) q" by auto
    from Cons.IH [OF this] True show ?thesis by (simp add: cpu_governor_loop_step)
  qed
qed





section \<open>The wireless probe\<close>

text \<open>
  What \<open>wlan_name\<close> does on every interface list: with an interface whose name starts
  with \<open>wl\<close> it returns the first such name; without one the copy of the name reads
  through the null pointer.
\<close>

lemma wlan_loop_found:
  "wlan_loop ifs = (found, rest) \<Longrightarrow>
   (found \<longleftrightarrow> rest \<noteq> []) \<and>
   (case find (\<lambda>n. take 2 n = ''wl'') ifs of None \<Rightarrow> rest = [] | Some n \<Rightarrow> rest \<noteq> [] \<and> hd rest = n)"
proof (induction ifs)
  case Nil
  then show ?case by simp
next
  case (Cons n ifs)
  have "(c_nth n 0 = CHR ''w'' \<and> c_nth n 1 = CHR ''l'') = (take 2 n = ''wl'')"
    by (cases n; cases "tl n") (auto simp: c_nth_def)
  with Cons show ?case by (auto split: if_splits)
qed

lemma wlan_name_first:
  "ifaddrs s = Some ifs \<Longrightarrow> find (\<lambda>n. take 2 n = ''wl'') ifs = Some n \<Longrightarrow>
   wlan_name s = Ret (Some n) s"
  using wlan_loop_found [of ifs "fst (wlan_loop ifs)" "snd (wlan_loop ifs)"]
  by (auto simp: wlan_name_def split: prod.splits list.splits)

lemma wlan_name_none:
  "ifaddrs s = Some ifs \<Longrightarrow> find (\<lambda>n. take 2 n = ''wl'') ifs = None \<Longrightarrow>
   wlan_name s = Undef"
  using wlan_loop_found [of ifs "fst (wlan_loop ifs)" "snd (wlan_loop ifs)"]
  by (auto simp: wlan_name_def split: prod.splits list.splits)

text \<open>
  Claim C6 says that without a wireless interface the probe reports none found, the
  wireless actuator skips and the transition completes. On a laptop whose interfaces are
  \<open>lo\<close> and \<open>eth0\<close> the probe, the actuator and both transitions have no defined
  behaviour: \<open>wlan_name\<close> reads \<open>iface->ifa_name\<close> with \<open>iface\<close> null before it tests
  \<open>found\<close>.
\<close>

theorem no_wireless_interface_undefined:
  "ifaddrs wired_laptop = Some [''lo'', ''eth0'']
   \<and> wlan_name wired_laptop = Undef
   \<and> wifi_power ''off'' wired_laptop = Undef
   \<and> main ''pwr'' [''perform''] wired_laptop = Undef
   \<and> main ''pwr'' [''powersave''] wired_laptop = Undef"
  by (simp add: main_defs action_perform_transition action_powersave_transition step_defs
        example_defs errors_defs)

section \<open>The executable probe\<close>

lemma and_1_perm: "(m :: 32 word) AND 1 = (m AND 0xFFF) AND 1"
  by (simp add: and.assoc)

text \<open>
  Claim C7, as amended. For every path the probe returns false when \<open>stat\<close> finds nothing
  at the path, and a true result means that an object exists there. The object need not
  be a regular file and the current user plays no part: the result does not change with
  the identities of the process, and two objects whose modes agree on the permission
  bits (octal 07777) get the same answer, whatever their file types.
\<close>

theorem binary_exists_needs_object:
  "(stat s path = None \<longrightarrow> binary_exists s path = 0)
   \<and> (binary_exists s path \<noteq> 0 \<longrightarrow> stat s path \<noteq> None)
   \<and> binary_exists (s\<lparr>uid_real := a, euid := b, uid_saved := c\<rparr>) path = binary_exists s path
   \<and> (stat s path = Some st \<and> stat s' path' = Some st'
        \<and> st_mode st AND 0xFFF = st_mode st' AND 0xFFF \<longrightarrow>
        binary_exists s path = binary_exists s' path')"
proof (intro conjI impI)
  show "binary_exists s path = 0" if "stat s path = None"
    using that by (simp add: binary_exists_def)
  show "stat s path \<noteq> None" if "binary_exists s path \<noteq> 0"
    using that by (auto simp: binary_exists_def split: option.splits)
  show "binary_exists (s\<lparr>uid_real := a, euid := b, uid_saved := c\<rparr>) path = binary_exists s path"
    by (simp add: binary_exists_def stat_def)
  show "binary_exists s path = binary_exists s' path'"
    if "stat s path = Some st \<and> stat s' path' = Some st'
        \<and> st_mode st AND 0xFFF = st_mode st' AND 0xFFF"
  proof -
    from that have "st_mode st AND 1 = st_mode st' AND 1"
      using and_1_perm [of "st_mode st"] and_1_perm [of "st_mode st'"] by simp
    with that show ?thesis by (simp add: binary_exists_def S_IEXEC_def)
  qed
qed

theorem binary_exists_needs_object_witness:
  "stat laptop ''/usr/bin/prime-select'' = None
   \<and> binary_exists laptop ''/usr/bin/prime-select'' = 0
   \<and> binary_exists laptop ''/bin/systemctl'' \<noteq> 0
   \<and> stat laptop ''/bin/systemctl'' \<noteq> None
   \<and> stat laptop ''/bin/systemctl'' = Some \<lparr>st_mode = 0x81ED, bytes = []\<rparr>
   \<and> stat dir_laptop ''/usr/bin/prime-select'' = Some \<lparr>st_mode = 0x41ED, bytes = []\<rparr>
   \<and> st_mode \<lparr>st_mode = 0x81ED, bytes = []\<rparr> AND 0xFFF
       = st_mode \<lparr>st_mode = 0x41ED, bytes = []\<rparr> AND 0xFFF
   \<and> binary_exists laptop ''/bin/systemctl'' = binary_exists dir_laptop ''/usr/bin/prime-select''"
proof -
  have h1: "stat laptop ''/usr/bin/prime-select'' = None"
    by (simp add: stat_def example_defs)
  have h2: "binary_exists laptop ''/bin/systemctl'' \<noteq> 0"
    by (simp add: binary_exists_def stat_def S_IEXEC_def example_defs)
  have h3: "stat laptop ''/bin/systemctl'' = Some \<lparr>st_mode = 0x81ED, bytes = []\<rparr>"
    by (simp add: stat_def example_defs)
  have h4: "stat dir_laptop ''/usr/bin/prime-select'' = Some \<lparr>st_mode = 0x41ED, bytes = []\<rparr>"
    by (simp add: stat_def example_defs)
  have h5: "st_mode \<lparr>st_mode = 0x81ED, bytes = []\<rparr> AND 0xFFF
       = st_mode \<lparr>st_mode = 0x41ED, bytes = []\<rparr> AND 0xFFF"
    by simp
  have c1: "binary_exists laptop ''/usr/bin/prime-select'' = 0"
    using binary_exists_needs_object [of laptop "''/usr/bin/prime-select''"] h1 by blast
  have c2: "stat laptop ''/bin/systemctl'' \<noteq> None"
    using binary_exists_needs_object [of laptop "''/bin/systemctl''"] h2 by blast
  have c3: "binary_exists laptop ''/bin/systemctl'' = binary_exists dir_laptop ''/usr/bin/prime-select''"
    using binary_exists_needs_object [of laptop "''/bin/systemctl''" _ _ _
        "\<lparr>st_mode = 0x81ED, bytes = []\<rparr>" dir_laptop "''/usr/bin/prime-select''"
        "\<lparr>st_mode = 0x41ED, bytes = []\<rparr>"] h3 h4 h5
    by blast
  show ?thesis by (intro conjI h1 c1 h2 c2 h3 h4 h5 c3)
qed

text \<open>
  Claim C7 as stated fails on a directory of mode \<open>drwxr-xr-x\<close>: the probe returns
  true, and no regular file exists at the path.
\<close>

theorem binary_exists_directory_counterexample:
  "stat dir_laptop ''/usr/bin/prime-select'' = Some \<lparr>st_mode = 0x41ED, bytes = []\<rparr>
   \<and> \<not> S_ISREG 0x41ED
   \<and> binary_exists dir_laptop ''/usr/bin/prime-select'' = 1"
  by (simp add: binary_exists_def stat_def S_IEXEC_def S_ISREG_def example_defs)

text \<open>
  The mask is the value of \<open>S_IEXEC != 0\<close>, that is 1, the execute bit of "others": a
  regular file of mode \<open>-rwx------\<close> is reported as not available.
\<close>

lemma binary_exists_owner_only:
  "binary_exists (laptop\<lparr>fs := [''/usr/bin/prime-select'' \<mapsto> \<lparr>st_mode = 0x81C0, bytes = []\<rparr>]\<rparr>)
     ''/usr/bin/prime-select'' = 0"
  by (simp add: binary_exists_def stat_def S_IEXEC_def)

section \<open>Exit codes\<close>

lemma token_action_not_none: "token_action a \<noteq> Some Action_none"
  by (simp add: token_action_def)

lemma sel_action_snoc:
  "sel_action a0 (xs @ [x]) = (case token_action x of Some a' \<Rightarrow> a' | None \<Rightarrow> sel_action a0 xs)"
  by (cases "token_action x") (simp_all add: sel_action_def)

lemma sel_action_not_none:
  "\<exists>a\<in>set args. token_action a \<noteq> None \<Longrightarrow> sel_action a0 args \<noteq> Action_none"
proof (induction args rule: rev_induct)
  case Nil
  then show ?case by simp
next
  case (snoc x xs)
  show ?case
  proof (cases "token_action x")
    case None
    with snoc show ?thesis by (auto simp: sel_action_snoc)
  next
    case (Some a')
    with token_action_not_none [of x] show ?thesis by (auto simp: sel_action_snoc)
  qed
qed

lemma sel_action_norestart:
  "\<forall>a\<in>set args. is_norestart a \<Longrightarrow> sel_action a0 args = a0"
  by (induction args rule: rev_induct) (simp_all add: sel_action_snoc token_action_norestart sel_action_def)

lemma transition_Ret_code: "transition g c w p s = Ret r t \<Longrightarrow> r = E_OK"
  using ends_transition [of g c w p s] by (simp add: ends_def)

lemma transition_Exit_code: "transition g c w p s = Exit e t \<Longrightarrow> e \<in> fatal"
  using ends_transition [of g c w p s] by (simp add: ends_def)

lemma run_action_Ret_code:
  assumes "run_action a s = Ret r t" and "a \<noteq> Action_none"
  shows "r = E_OK"
proof (cases a)
  case Action_none
  with assms show ?thesis by simp
next
  case Action_perform
  with assms transition_Ret_code show ?thesis by (auto simp: action_perform_transition)
next
  case Action_powersave
  with assms transition_Ret_code show ?thesis by (auto simp: action_powersave_transition)
next
  case Action_query
  with assms show ?thesis by (auto simp: action_query_def andthen_Ret)
next
  case Action_toggle
  with assms transition_Ret_code show ?thesis
    by (auto simp: action_toggle_def andthen_Ret action_perform_transition
          action_powersave_transition split: if_splits)
next
  case Action_version
  with assms show ?thesis by (auto simp: action_version_def)
next
  case Action_help
  with assms show ?thesis by (auto simp: action_help_def)
qed

lemma run_action_Exit_code:
  assumes "run_action a s = Exit e t"
  shows "e \<in> insert E_PWR_STATE_READ fatal"
proof (cases a)
  case Action_none
  with assms show ?thesis by (simp add: action_none_def)
next
  case Action_perform
  with assms transition_Exit_code show ?thesis by (auto simp: action_perform_transition)
next
  case Action_powersave
  with assms transition_Exit_code show ?thesis by (auto simp: action_powersave_transition)
next
  case Action_query
  with assms show ?thesis
    by (auto simp: action_query_def andthen_Exit dest!: get_pwr_state_Exit)
next
  case Action_toggle
  with assms transition_Exit_code show ?thesis
    by (auto simp: action_toggle_def andthen_Exit action_perform_transition
          action_powersave_transition split: if_splits dest!: get_pwr_state_Exit)
next
  case Action_version
  with assms show ?thesis by (auto simp: action_version_def)
next
  case Action_help
  with assms show ?thesis by (auto simp: action_help_def)
qed

lemma main_bad_arg:
  assumes "\<not> (\<forall>a\<in>set args. recognized a)"
  shows "exit_status (main argv0 args s) = Some 2"
proof -
  obtain c s1 where p: "parse_args argv0 args (s\<lparr>ruid := geteuid s\<rparr>) = (c, s1)"
    by (cases "parse_args argv0 args (s\<lparr>ruid := geteuid s\<rparr>)")
  have "fst (parse_args argv0 args (s\<lparr>ruid := geteuid s\<rparr>)) = E_BAD_ARG"
    unfolding parse_args_def by (rule parse_args_loop_bad [OF assms])
  with p have "c = E_BAD_ARG" by simp
  with p show ?thesis by (simp add: main_def errors_defs)
qed

lemma main_no_action:
  assumes "\<forall>a\<in>set args. is_norestart a"
  shows "exit_status (main argv0 args s) = Some 1"
proof -
  from assms have r: "\<forall>a\<in>set args. recognized a" by (simp add: recognized_def)
  show ?thesis
    unfolding main_recognized [OF r] sel_action_norestart [OF assms]
    by (simp add: action_none_def errors_defs)
qed

lemma main_success:
  assumes r: "\<forall>a\<in>set args. recognized a" and a: "\<exists>a\<in>set args. token_action a \<noteq> None"
    and m: "returned (main argv0 args s) = Some v"
  shows "v = 0"
proof -
  from m obtain t where "main argv0 args s = Ret v t"
    by (cases "main argv0 args s") simp_all
  then have "run_action (sel_action Action_none args)
           (s\<lparr>ruid := euid s,
              flags := \<lparr>program_name = argv0, action = sel_action Action_none args,
                        no_restart = (if \<exists>a\<in>set args. is_norestart a then 1 else 0)\<rparr>\<rparr>) = Ret v t"
    unfolding main_recognized [OF r] .
  from run_action_Ret_code [OF this sel_action_not_none [OF a]] show ?thesis
    by (simp add: E_OK_def)
qed

lemma main_exited:
  assumes "exited (main argv0 args s) = Some e"
  shows "e \<in> {E_CPUFREQ_WRITE, E_PWR_STATE_WRITE, E_PWR_STATE_READ, E_FORK_FAILED}"
proof -
  from assms obtain t where m: "main argv0 args s = Exit e t"
    by (cases "main argv0 args s") simp_all
  obtain c s1 where p: "parse_args argv0 args (s\<lparr>ruid := geteuid s\<rparr>) = (c, s1)"
    by (cases "parse_args argv0 args (s\<lparr>ruid := geteuid s\<rparr>)")
  with m have "run_action (action (flags s1)) s1 = Exit e t"
    by (simp add: main_def split: if_splits)
  from run_action_Exit_code [OF this] show ?thesis by (auto simp: fatal_def)
qed

text \<open>
  Claim C8. The program exits with 0 on success (every action that was asked for and
  returned), with 1 when no action token is given, with 2 when an argument is not
  recognized, and with a code of its own for each failure: 3 when a governor file cannot
  be opened, 4 when the state file cannot be written, 5 when it cannot be read, 6 when
  \<open>fork\<close> fails. The seven codes are pairwise different, the four failure codes are not
  0, and \<open>exit\<close> is never called with another status.
\<close>

theorem exit_codes:
  "E_OK = 0 \<and> E_NO_ACTION = 1 \<and> E_BAD_ARG = 2
   \<and> distinct [E_OK, E_NO_ACTION, E_BAD_ARG, E_CPUFREQ_WRITE, E_PWR_STATE_WRITE,
               E_PWR_STATE_READ, E_FORK_FAILED]
   \<and> 0 \<notin> {E_CPUFREQ_WRITE, E_PWR_STATE_WRITE, E_PWR_STATE_READ, E_FORK_FAILED}
   \<and> ((\<forall>a\<in>set args. is_norestart a) \<longrightarrow> exit_status (main argv0 args s) = Some 1)
   \<and> (\<not> (\<forall>a\<in>set args. recognized a) \<longrightarrow> exit_status (main argv0 args s) = Some 2)
   \<and> ((\<forall>a\<in>set args. recognized a) \<and> (\<exists>a\<in>set args. token_action a \<noteq> None)
        \<and> returned (main argv0 args s) = Some r \<longrightarrow> r = 0)
   \<and> ((\<exists>p\<in>set (glob_governors s). \<not> wperm s (euid s) p) \<longrightarrow>
        exited (cpu_governor rule s) = Some E_CPUFREQ_WRITE)
   \<and> (\<not> wperm s (euid s) pwr_state_path \<longrightarrow>
        exited (set_pwr_state v s) = Some E_PWR_STATE_WRITE)
   \<and> (fopen_r s pwr_state_path = None \<longrightarrow>
        exited (get_pwr_state s) = Some E_PWR_STATE_READ)
   \<and> (forks_left s = 0 \<longrightarrow> exited (fexecl line path argv s) = Some E_FORK_FAILED)
   \<and> (exited (main argv0 args s) = Some e \<longrightarrow>
        e \<in> {E_CPUFREQ_WRITE, E_PWR_STATE_WRITE, E_PWR_STATE_READ, E_FORK_FAILED})"
proof -
  have 1: "E_OK = 0 \<and> E_NO_ACTION = 1 \<and> E_BAD_ARG = 2"
    by (simp add: errors_defs)
  have 2: "distinct [E_OK, E_NO_ACTION, E_BAD_ARG, E_CPUFREQ_WRITE, E_PWR_STATE_WRITE,
               E_PWR_STATE_READ, E_FORK_FAILED]"
    by (simp add: errors_defs)
  have 3: "0 \<notin> {E_CPUFREQ_WRITE, E_PWR_STATE_WRITE, E_PWR_STATE_READ, E_FORK_FAILED}"
    by (simp add: errors_defs)
  have 4: "(\<exists>p\<in>set (glob_governors s). \<not> wperm s (euid s) p) \<longrightarrow>
        exited (cpu_governor rule s) = Some E_CPUFREQ_WRITE"
  proof
    assume "\<exists>p\<in>set (glob_governors s). \<not> wperm s (euid s) p"
    from cpu_governor_loop_fail [OF this] obtain t where
      "cpu_governor rule s = Exit E_CPUFREQ_WRITE t"
      unfolding cpu_governor_def by blast
    then show "exited (cpu_governor rule s) = Some E_CPUFREQ_WRITE" by simp
  qed
  have 5: "\<not> wperm s (euid s) pwr_state_path \<longrightarrow>
        exited (set_pwr_state v s) = Some E_PWR_STATE_WRITE"
    by (simp add: set_pwr_state_eq)
  have 6: "fopen_r s pwr_state_path = None \<longrightarrow>
        exited (get_pwr_state s) = Some E_PWR_STATE_READ"
    by (simp add: get_pwr_state_eq)
  have 7: "forks_left s = 0 \<longrightarrow> exited (fexecl line path argv s) = Some E_FORK_FAILED"
    by (simp add: fexecl_def)
  show ?thesis
    using 1 2 3 4 5 6 7 main_no_action [of args argv0 s] main_bad_arg [of args argv0 s]
      main_success [of args argv0 s r] main_exited [of argv0 args s e]
    by blast
qed


theorem exit_codes_witness:
  "is_norestart ''-n''
   \<and> exit_status (main ''pwr'' [''-n''] laptop) = Some 1
   \<and> exit_status (main ''pwr'' [] laptop) = Some 1
   \<and> \<not> recognized ''--fast''
   \<and> exit_status (main ''pwr'' [''perform'', ''--fast''] laptop) = Some 2
   \<and> recognized ''perform'' \<and> token_action ''perform'' \<noteq> None
   \<and> returned (main ''pwr'' [''perform''] laptop)
       = Some (the (returned (main ''pwr'' [''perform''] laptop)))
   \<and> the (returned (main ''pwr'' [''perform''] laptop)) = 0
   \<and> \<not> wperm readonly_laptop (euid readonly_laptop)
        ''/sys/devices/system/cpu/cpu0/cpufreq/scaling_governor''
   \<and> exited (cpu_governor ''performance'' readonly_laptop) = Some 3
   \<and> \<not> wperm readonly_laptop (euid readonly_laptop) pwr_state_path
   \<and> exited (set_pwr_state ''perform'' readonly_laptop) = Some 4
   \<and> fopen_r fresh_laptop pwr_state_path = None
   \<and> exited (get_pwr_state fresh_laptop) = Some 5
   \<and> forks_left (laptop\<lparr>forks_left := 0\<rparr>) = 0
   \<and> exited (fexecl ''137'' ''/usr/bin/prime-select'' [''prime-select'', ''intel'']
        (laptop\<lparr>forks_left := 0\<rparr>)) = Some 6
   \<and> exited (main ''pwr'' [''perform''] readonly_laptop) = Some 3"
proof -
  let ?g0 = "''/sys/devices/system/cpu/cpu0/cpufreq/scaling_governor''"
  let ?z = "laptop\<lparr>forks_left := 0\<rparr>"
  have codes: "E_CPUFREQ_WRITE = 3" "E_PWR_STATE_WRITE = 4" "E_PWR_STATE_READ = 5"
    "E_FORK_FAILED = 6"
    by (simp_all add: errors_defs)
  have h1: "is_norestart ''-n''"
    by (simp add: is_norestart_def)
  have h2: "\<not> recognized ''--fast''"
    by (simp add: recognized_def token_action_def is_norestart_def)
  have h3: "recognized ''perform''" and h3': "token_action ''perform'' \<noteq> None"
    by (simp_all add: recognized_def token_action_def)
  have h4: "returned (main ''pwr'' [''perform''] laptop)
       = Some (the (returned (main ''pwr'' [''perform''] laptop)))"
    by (simp add: main_defs action_perform_transition step_defs example_defs errors_defs)
  have h5: "\<not> wperm readonly_laptop (euid readonly_laptop) ?g0"
    and h6: "\<not> wperm readonly_laptop (euid readonly_laptop) pwr_state_path"
    by (simp_all add: example_defs)
  have g: "?g0 \<in> set (glob_governors readonly_laptop)"
    by (simp add: glob_governors_def example_defs)
  have h7: "fopen_r fresh_laptop pwr_state_path = None"
    by (simp add: fopen_r_def example_defs pwr_state_path_def)
  have h8: "forks_left ?z = 0"
    by simp
  have h9: "exited (main ''pwr'' [''perform''] readonly_laptop) = Some 3"
    by (simp add: main_defs action_perform_transition step_defs example_defs errors_defs)
  have c1: "exit_status (main ''pwr'' [''-n''] laptop) = Some 1"
    using exit_codes [where args = "[''-n'']"
        and ?argv0.0 = "''pwr''"
        and s = laptop
        and r = 0
        and rule = "''performance''"
        and v = "''perform''"
        and line = "''137''"
        and path = "''/usr/bin/prime-select''"
        and argv = "[''prime-select'', ''intel'']"
        and e = 3] h1
    by simp
  have c1': "exit_status (main ''pwr'' [] laptop) = Some 1"
    using exit_codes [where args = "[]"
        and ?argv0.0 = "''pwr''"
        and s = laptop
        and r = 0
        and rule = "''performance''"
        and v = "''perform''"
        and line = "''137''"
        and path = "''/usr/bin/prime-select''"
        and argv = "[''prime-select'', ''intel'']"
        and e = 3]
    by simp
  have c2: "exit_status (main ''pwr'' [''perform'', ''--fast''] laptop) = Some 2"
    using exit_codes [where args = "[''perform'', ''--fast'']"
        and ?argv0.0 = "''pwr''"
        and s = laptop
        and r = 0
        and rule = "''performance''"
        and v = "''perform''"
        and line = "''137''"
        and path = "''/usr/bin/prime-select''"
        and argv = "[''prime-select'', ''intel'']"
        and e = 3] h2
    by simp
  have c3: "the (returned (main ''pwr'' [''perform''] laptop)) = 0"
    using exit_codes [where args = "[''perform'']"
        and ?argv0.0 = "''pwr''"
        and s = laptop
        and r = "the (returned (main ''pwr'' [''perform''] laptop))"
        and rule = "''performance''"
        and v = "''perform''"
        and line = "''137''"
        and path = "''/usr/bin/prime-select''"
        and argv = "[''prime-select'', ''intel'']"
        and e = 3] h3 h3' h4
    by simp
  have ex: "\<exists>p\<in>set (glob_governors readonly_laptop).
      \<not> wperm readonly_laptop (euid readonly_laptop) p"
    using g h5 by blast
  have c4: "exited (cpu_governor ''performance'' readonly_laptop) = Some 3"
    using exit_codes [where args = "[]"
        and ?argv0.0 = "''pwr''"
        and s = readonly_laptop
        and r = 0
        and rule = "''performance''"
        and v = "''perform''"
        and line = "''137''"
        and path = "''/usr/bin/prime-select''"
        and argv = "[''prime-select'', ''intel'']"
        and e = 3] ex codes
    by simp
  have c5: "exited (set_pwr_state ''perform'' readonly_laptop) = Some 4"
    using exit_codes [where args = "[]"
        and ?argv0.0 = "''pwr''"
        and s = readonly_laptop
        and r = 0
        and rule = "''performance''"
        and v = "''perform''"
        and line = "''137''"
        and path = "''/usr/bin/prime-select''"
        and argv = "[''prime-select'', ''intel'']"
        and e = 3] h6 codes
    by simp
  have c6: "exited (get_pwr_state fresh_laptop) = Some 5"
    using exit_codes [where args = "[]"
        and ?argv0.0 = "''pwr''"
        and s = fresh_laptop
        and r = 0
        and rule = "''performance''"
        and v = "''perform''"
        and line = "''137''"
        and path = "''/usr/bin/prime-select''"
        and argv = "[''prime-select'', ''intel'']"
        and e = 3] h7 codes
    by simp
  have c7: "exited (fexecl ''137'' ''/usr/bin/prime-select'' [''prime-select'', ''intel''] ?z)
      = Some 6"
    using exit_codes [where args = "[]"
        and ?argv0.0 = "''pwr''"
        and s = "laptop\<lparr>forks_left := 0\<rparr>"
        and r = 0
        and rule = "''performance''"
        and v = "''perform''"
        and line = "''137''"
        and path = "''/usr/bin/prime-select''"
        and argv = "[''prime-select'', ''intel'']"
        and e = 3] h8 codes
    by simp
  show ?thesis by (intro conjI h1 c1 c1' h2 c2 h3 h3' h4 c3 h5 c4 h6 c5 h7 c6 h8 c7 h9)
qed

section \<open>The C and the C++ file\<close>

lemma state_token_action:
  "state_token a \<Longrightarrow> token_action a = Some Action_query \<or> token_action a = Some Action_toggle"
  unfolding state_token_def token_action_def by auto

lemma token_action_state:
  "token_action a = Some act \<Longrightarrow> state_token a \<longleftrightarrow> act = Action_query \<or> act = Action_toggle"
  using token_action_cases [of a act] unfolding state_token_def by auto

lemma parse_step_action_cpp:
  assumes "token_action a = Some act" and "\<not> state_token a"
  shows "parse_args_loop_cpp (a # rest) s =
         parse_args_loop_cpp rest (s\<lparr>flags := (flags s)\<lparr>action := act\<rparr>\<rparr>)"
  using token_action_cases [OF assms(1)] assms(2) unfolding state_token_def
  by (elim disjE conjE) simp_all

lemma parse_step_norestart_cpp:
  "is_norestart a \<Longrightarrow>
   parse_args_loop_cpp (a # rest) s =
   parse_args_loop_cpp rest (s\<lparr>flags := (flags s)\<lparr>no_restart := 1\<rparr>\<rparr>)"
  unfolding is_norestart_def by (elim disjE) simp_all

lemma parse_step_bad_cpp:
  assumes "\<not> recognized a"
  shows "parse_args_loop_cpp (a # rest) s =
         (E_BAD_ARG, eprintf (''Bad argument encountered: '' @ a @ [NL]) s)"
proof -
  from assms have n: "token_action a = None" and r: "a \<noteq> ''--norestart''" "a \<noteq> ''-n''"
    by (simp_all add: recognized_def is_norestart_def)
  from token_action_None [OF n] r show ?thesis by simp
qed

lemma parse_step_state_cpp:
  assumes "state_token a"
  shows "parse_args_loop_cpp (a # rest) s =
         (E_BAD_ARG, eprintf (''Bad argument encountered: '' @ a @ [NL]) s)"
  using assms unfolding state_token_def by auto


declare parse_args_loop_cpp.simps(2) [simp del]

lemma parse_args_loop_cpp_eq:
  "\<forall>a\<in>set args. \<not> state_token a \<Longrightarrow> parse_args_loop_cpp args s = parse_args_loop args s"
proof (induction args arbitrary: s)
  case Nil
  then show ?case by simp
next
  case (Cons a args)
  then have ns: "\<not> state_token a" and rest: "\<forall>a\<in>set args. \<not> state_token a" by simp_all
  show ?case
  proof (cases "recognized a")
    case False
    then show ?thesis by (simp add: parse_step_bad parse_step_bad_cpp)
  next
    case True
    from recognized_cases [OF True] show ?thesis
    proof
      assume "\<exists>act. token_action a = Some act"
      then obtain act where act: "token_action a = Some act" ..
      show ?thesis
        by (simp add: parse_step_action [OF act] parse_step_action_cpp [OF act ns]
              Cons.IH [OF rest])
    next
      assume nr: "is_norestart a"
      show ?thesis
        by (simp add: parse_step_norestart [OF nr] parse_step_norestart_cpp [OF nr]
              Cons.IH [OF rest])
    qed
  qed
qed

lemma parse_args_loop_cpp_bad:
  "\<exists>a\<in>set args. \<not> recognized a \<or> state_token a \<Longrightarrow>
   fst (parse_args_loop_cpp args s) = E_BAD_ARG"
proof (induction args arbitrary: s)
  case Nil
  then show ?case by simp
next
  case (Cons a args)
  show ?case
  proof (cases "\<not> recognized a \<or> state_token a")
    case True
    then show ?thesis by (auto simp: parse_step_bad_cpp parse_step_state_cpp)
  next
    case False
    then have rec: "recognized a" and ns: "\<not> state_token a" by simp_all
    from False Cons.prems have rest: "\<exists>a\<in>set args. \<not> recognized a \<or> state_token a"
      by auto
    from recognized_cases [OF rec] show ?thesis
    proof
      assume "\<exists>act. token_action a = Some act"
      then obtain act where act: "token_action a = Some act" ..
      show ?thesis by (simp add: parse_step_action_cpp [OF act ns] Cons.IH [OF rest])
    next
      assume nr: "is_norestart a"
      show ?thesis by (simp add: parse_step_norestart_cpp [OF nr] Cons.IH [OF rest])
    qed
  qed
qed

lemma parse_args_bad_unrecognized:
  assumes "fst (parse_args argv0 args s) = E_BAD_ARG"
  shows "\<not> (\<forall>a\<in>set args. recognized a)"
proof
  assume "\<forall>a\<in>set args. recognized a"
  from parse_args_loop_recognized [OF this] assms show False
    by (simp add: parse_args_def errors_defs)
qed

lemma main_cpp_bad:
  assumes "\<exists>a\<in>set args. \<not> recognized a \<or> state_token a"
  shows "exit_status (main_cpp argv0 args s) = Some 2"
proof -
  obtain c s1 where p: "parse_args_cpp argv0 args (s\<lparr>ruid := geteuid s\<rparr>) = (c, s1)"
    by (cases "parse_args_cpp argv0 args (s\<lparr>ruid := geteuid s\<rparr>)")
  have "fst (parse_args_cpp argv0 args (s\<lparr>ruid := geteuid s\<rparr>)) = E_BAD_ARG"
    unfolding parse_args_cpp_def by (rule parse_args_loop_cpp_bad [OF assms])
  with p have "c = E_BAD_ARG" by simp
  with p show ?thesis by (simp add: main_cpp_def errors_defs)
qed

lemma sel_action_no_state:
  "\<forall>a\<in>set args. \<not> state_token a \<Longrightarrow> a0 \<noteq> Action_query \<Longrightarrow> a0 \<noteq> Action_toggle \<Longrightarrow>
   sel_action a0 args \<noteq> Action_query \<and> sel_action a0 args \<noteq> Action_toggle"
proof (induction args rule: rev_induct)
  case Nil
  then show ?case by (simp add: sel_action_def)
next
  case (snoc x xs)
  show ?case
  proof (cases "token_action x")
    case None
    with snoc show ?thesis by (simp add: sel_action_snoc)
  next
    case (Some act)
    with snoc.prems token_action_state [OF Some] show ?thesis
      by (simp add: sel_action_snoc)
  qed
qed

lemma main_cpp_recognized:
  assumes r: "\<forall>a\<in>set args. recognized a" and n: "\<forall>a\<in>set args. \<not> state_token a"
  shows "main_cpp argv0 args s =
         run_action_cpp (sel_action Action_none args)
           (s\<lparr>ruid := euid s,
              flags := \<lparr>program_name = argv0, action = sel_action Action_none args,
                        no_restart = (if \<exists>a\<in>set args. is_norestart a then 1 else 0)\<rparr>\<rparr>)"
  by (simp add: main_cpp_def parse_args_cpp_def geteuid_def parse_args_loop_cpp_eq [OF n]
        parse_args_loop_recognized [OF r] E_OK_def)

lemma main_cpp_same_code:
  assumes n: "\<forall>a\<in>set args. \<not> state_token a"
    and a: "sel_action Action_none args \<noteq> Action_perform"
      "sel_action Action_none args \<noteq> Action_powersave"
  shows "exit_status (main_cpp argv0 args s) = exit_status (main argv0 args s)"
proof (cases "\<forall>a\<in>set args. recognized a")
  case False
  then have "\<exists>a\<in>set args. \<not> recognized a \<or> state_token a" by blast
  from main_cpp_bad [OF this] main_bad_arg [OF False] show ?thesis by simp
next
  case True
  from sel_action_no_state [OF n, of Action_none] a show ?thesis
    unfolding main_recognized [OF True] main_cpp_recognized [OF True n]
    by (cases "sel_action Action_none args")
      (simp_all add: action_none_def action_none_cpp_def action_version_def
         action_version_cpp_def action_help_def action_help_cpp_def)
qed

lemma cpu_governor_loop_cpp_step:
  "cpu_governor_loop_cpp (p # ps) rule s =
     (if wperm s (euid s) p
      then cpu_governor_loop_cpp ps rule
             (s\<lparr>fs := (fs s)(p \<mapsto> (case fs s p of
                              None \<Rightarrow> \<lparr>st_mode = creat_mode s, bytes = rule @ [NL]\<rparr>
                            | Some f \<Rightarrow> f\<lparr>bytes := rule @ [NL]\<rparr>))\<rparr>)
      else cpu_governor_loop_cpp ps rule s)"
proof (cases "wperm s (euid s) p")
  case True
  then obtain s' where o: "fopen_w s p = Some s'" by (auto simp: fopen_w_def)
  from write_file [OF True, of "rule @ [NL]"] o
  have "fprint_close p (rule @ [NL]) s' =
      s\<lparr>fs := (fs s)(p \<mapsto> (case fs s p of
                              None \<Rightarrow> \<lparr>st_mode = creat_mode s, bytes = rule @ [NL]\<rparr>
                            | Some f \<Rightarrow> f\<lparr>bytes := rule @ [NL]\<rparr>))\<rparr>"
    by simp
  with o True show ?thesis by simp
next
  case False
  then show ?thesis by (simp add: fopen_w_def)
qed

declare cpu_governor_loop_cpp.simps(2) [simp del]

lemma cpu_governor_loop_cpp_of_Ret:
  "cpu_governor_loop ps rule s = Ret u t \<Longrightarrow> cpu_governor_loop_cpp ps rule s = Ret u t"
proof (induction ps arbitrary: s)
  case Nil
  then show ?case by simp
next
  case (Cons p ps)
  from Cons.prems have w: "wperm s (euid s) p"
    by (auto simp: cpu_governor_loop_step split: if_splits)
  with Cons.prems Cons.IH show ?case
    by (simp add: cpu_governor_loop_step cpu_governor_loop_cpp_step)
qed

lemma fexecl_cpp_of_Ret: "fexecl l p a s = Ret u t \<Longrightarrow> fexecl_cpp p a s = Ret u t"
  by (cases "forks_left s = 0") (auto simp: fexecl_def fexecl_cpp_def)

lemma prime_select_cpp_of_Ret: "prime_select c s = Ret u t \<Longrightarrow> prime_select_cpp c s = Ret u t"
  by (auto simp: prime_select_def prime_select_cpp_def fexecl_cpp_of_Ret split: if_splits)

lemma restart_display_manager_cpp_of_Ret:
  "restart_display_manager s = Ret u t \<Longrightarrow> restart_display_manager_cpp s = Ret u t"
  by (auto simp: restart_display_manager_def restart_display_manager_cpp_def fexecl_cpp_of_Ret
        split: if_splits)

lemma wifi_power_cpp_of_Ret: "wifi_power w s = Ret u t \<Longrightarrow> wifi_power_cpp w s = Ret u t"
  by (cases "wlan_name s")
    (auto simp: wifi_power_def wifi_power_cpp_def fexecl_cpp_of_Ret split: if_splits)

lemma andthen_RetE:
  assumes "andthen r k = Ret v t"
  obtains u t1 where "r = Ret u t1" and "k u t1 = Ret v t"
  using assms by (cases r) simp_all

lemma transition_cpp_of_Ret:
  assumes "transition g c w p s = Ret r t"
  shows "\<exists>t'. transition_cpp g c w s = Ret r t' \<and> launched t' = launched t
           \<and> euid t' = euid t \<and> out t' = out t \<and> err t' = err t
           \<and> (\<forall>q. q \<noteq> pwr_state_path \<longrightarrow> fs t' q = fs t q)
           \<and> state_file t' = state_file s"
proof -
  from assms [unfolded transition_def] obtain u1 t1 where
    1: "cpu_governor g (seteuid 0 s) = Ret u1 t1" and
    a1: "andthen (prime_select c t1) (\<lambda>_ s.
     andthen (wifi_power w s) (\<lambda>_ s.
     andthen (restart_display_manager s) (\<lambda>_ s.
     andthen (set_pwr_state p s) (\<lambda>_ s.
       Ret E_OK (seteuid (ruid s) s))))) = Ret r t"
    by (rule andthen_RetE)
  from a1 obtain u2 t2 where
    2: "prime_select c t1 = Ret u2 t2" and
    a2: "andthen (wifi_power w t2) (\<lambda>_ s.
     andthen (restart_display_manager s) (\<lambda>_ s.
     andthen (set_pwr_state p s) (\<lambda>_ s.
       Ret E_OK (seteuid (ruid s) s)))) = Ret r t"
    by (rule andthen_RetE)
  from a2 obtain u3 t3 where
    3: "wifi_power w t2 = Ret u3 t3" and
    a3: "andthen (restart_display_manager t3) (\<lambda>_ s.
     andthen (set_pwr_state p s) (\<lambda>_ s.
       Ret E_OK (seteuid (ruid s) s))) = Ret r t"
    by (rule andthen_RetE)
  from a3 obtain u4 t4 where
    4: "restart_display_manager t3 = Ret u4 t4" and
    a4: "andthen (set_pwr_state p t4) (\<lambda>_ s. Ret E_OK (seteuid (ruid s) s)) = Ret r t"
    by (rule andthen_RetE)
  from a4 obtain u5 t5 where
    5: "set_pwr_state p t4 = Ret u5 t5" and
    6: "Ret E_OK (seteuid (ruid t5) t5) = Ret r t"
    by (rule andthen_RetE)
  have c: "transition_cpp g c w s = Ret E_OK (seteuid (ruid t4) t4)"
    using cpu_governor_loop_cpp_of_Ret [OF 1 [unfolded cpu_governor_def]]
      prime_select_cpp_of_Ret [OF 2] wifi_power_cpp_of_Ret [OF 3]
      restart_display_manager_cpp_of_Ret [OF 4]
    by (simp add: transition_cpp_def cpu_governor_cpp_def)
  have u: "unchanged (seteuid 0 s) t4"
    by (rule unchanged_trans [OF cpu_governor_Ret [OF 1]
          unchanged_trans [OF prime_select_Ret [OF 2]
            unchanged_trans [OF wifi_power_Ret [OF 3] restart_display_manager_Ret [OF 4]]]])
  then have sf: "state_file t4 = state_file s"
    by (simp add: unchanged_def seteuid_def state_file_def)
  from 5 have w: "wperm t4 (euid t4) pwr_state_path"
    by (auto simp: set_pwr_state_eq split: if_splits)
  from 5 w have t5: "t5 = t4\<lparr>fs := (fs t4)(pwr_state_path \<mapsto> (case fs t4 pwr_state_path of
                              None \<Rightarrow> \<lparr>st_mode = creat_mode t4, bytes = p @ [NL]\<rparr>
                            | Some f \<Rightarrow> f\<lparr>bytes := p @ [NL]\<rparr>))\<rparr>"
    by (simp add: set_pwr_state_eq)
  from 6 have r: "r = E_OK" and t: "t = seteuid (ruid t5) t5" by simp_all
  show ?thesis
    unfolding c r t t5 using sf
    by (simp add: seteuid_def state_file_def)
qed

lemma fold_puts_frame:
  "launched (fold puts ls u) = launched u \<and> euid (fold puts ls u) = euid u
   \<and> fs (fold puts ls u) = fs u"
  by (induction ls arbitrary: u) (simp_all add: puts_def)

lemma run_action_cpp_of_Ret:
  assumes "run_action a s = Ret r t" and "a \<noteq> Action_query" and "a \<noteq> Action_toggle"
  shows "\<exists>t'. run_action_cpp a s = Ret r t' \<and> same_effects t' t"
proof (cases a)
  case Action_none
  with assms show ?thesis
    by (auto simp: action_none_def action_none_cpp_def eprintf_def same_effects_def)
next
  case Action_perform
  with assms have "transition ''performance'' ''nvidia'' ''off'' ''perform'' s = Ret r t"
    by (simp add: action_perform_transition)
  from transition_cpp_of_Ret [OF this] Action_perform show ?thesis
    by (auto simp: action_perform_cpp_def transition_cpp_def same_effects_def)
next
  case Action_powersave
  with assms have "transition ''powersave'' ''intel'' ''on'' ''powersave'' s = Ret r t"
    by (simp add: action_powersave_transition)
  from transition_cpp_of_Ret [OF this] Action_powersave show ?thesis
    by (auto simp: action_powersave_cpp_def transition_cpp_def same_effects_def)
next
  case Action_query
  with assms show ?thesis by simp
next
  case Action_toggle
  with assms show ?thesis by simp
next
  case Action_version
  with assms show ?thesis
    by (auto simp: action_version_def action_version_cpp_def puts_def same_effects_def)
next
  case Action_help
  with assms fold_puts_frame show ?thesis
    by (auto simp: action_help_def action_help_cpp_def puts_def printf_def same_effects_def)
qed

lemma main_cpp_of_Ret:
  assumes n: "\<forall>a\<in>set args. \<not> state_token a" and m: "main argv0 args s = Ret r t"
  shows "\<exists>t'. main_cpp argv0 args s = Ret r t' \<and> same_effects t' t"
proof (cases "\<forall>a\<in>set args. recognized a")
  case True
  from sel_action_no_state [OF n, of Action_none]
  have a: "sel_action Action_none args \<noteq> Action_query"
    "sel_action Action_none args \<noteq> Action_toggle"
    by simp_all
  from m have "run_action (sel_action Action_none args)
           (s\<lparr>ruid := euid s,
              flags := \<lparr>program_name = argv0, action = sel_action Action_none args,
                        no_restart = (if \<exists>a\<in>set args. is_norestart a then 1 else 0)\<rparr>\<rparr>) = Ret r t"
    unfolding main_recognized [OF True] .
  from run_action_cpp_of_Ret [OF this a] show ?thesis
    unfolding main_cpp_recognized [OF True n] .
next
  case False
  obtain c s1 where p: "parse_args argv0 args (s\<lparr>ruid := geteuid s\<rparr>) = (c, s1)"
    by (cases "parse_args argv0 args (s\<lparr>ruid := geteuid s\<rparr>)")
  have "fst (parse_args argv0 args (s\<lparr>ruid := geteuid s\<rparr>)) = E_BAD_ARG"
    unfolding parse_args_def by (rule parse_args_loop_bad [OF False])
  with p have c: "c = E_BAD_ARG" by simp
  have p': "parse_args_cpp argv0 args (s\<lparr>ruid := geteuid s\<rparr>) = (c, s1)"
    using p by (simp add: parse_args_cpp_def parse_args_def parse_args_loop_cpp_eq [OF n])
  from m p c have "r = c" "t = s1" by (simp_all add: main_def errors_defs)
  with p' c show ?thesis by (simp add: main_cpp_def errors_defs same_effects_def)
qed

text \<open>The C++ program never ends through \<open>exit\<close> and never touches the state file.\<close>

lemma ends_step_cpp:
  assumes o: "unchanged s0 s"
    and r: "\<And>u t. r = Ret u t \<Longrightarrow> unchanged s t"
    and e: "\<And>e t. r \<noteq> Exit e t"
  shows "ends r (\<lambda>_ t. unchanged s0 t) (\<lambda>e t. False)"
proof (cases r)
  case (Ret u t)
  with r [OF Ret] o show ?thesis by (simp add: ends_def unchanged_trans [of s0 s t])
next
  case (Exit e' t)
  with e [of e' t] show ?thesis by simp
next
  case Undef
  then show ?thesis by (simp add: ends_def)
qed

lemma cpu_governor_loop_cpp_ends:
  "pwr_state_path \<notin> set ps \<Longrightarrow> unchanged s0 s \<Longrightarrow>
   ends (cpu_governor_loop_cpp ps rule s) (\<lambda>_ t. unchanged s0 t) (\<lambda>e t. False)"
proof (induction ps arbitrary: s)
  case Nil
  then show ?case by (simp add: ends_def)
next
  case (Cons p ps)
  let ?s1 = "s\<lparr>fs := (fs s)(p \<mapsto> (case fs s p of
                              None \<Rightarrow> \<lparr>st_mode = creat_mode s, bytes = rule @ [NL]\<rparr>
                            | Some f \<Rightarrow> f\<lparr>bytes := rule @ [NL]\<rparr>))\<rparr>"
  from Cons.prems have n: "pwr_state_path \<notin> set ps" and p: "p \<noteq> pwr_state_path" by auto
  from p have "unchanged s ?s1" by (auto simp: unchanged_def state_file_def)
  with Cons.prems(2) have u: "unchanged s0 ?s1" by (rule unchanged_trans)
  show ?case
    using Cons.IH [OF n u] Cons.IH [OF n Cons.prems(2)]
    by (simp add: cpu_governor_loop_cpp_step)
qed

lemma fexecl_cpp_unchanged: "fexecl_cpp p a s = Ret u t \<Longrightarrow> unchanged s t"
  by (auto simp: fexecl_cpp_def unchanged_def state_file_def split: if_splits)

lemma fexecl_cpp_no_Exit: "fexecl_cpp p a s \<noteq> Exit e t"
  by (simp add: fexecl_cpp_def)

lemma ends_cpu_governor_cpp:
  "unchanged s0 s \<Longrightarrow>
   ends (cpu_governor_cpp g s) (\<lambda>_ t. unchanged s0 t) (\<lambda>e t. False)"
  unfolding cpu_governor_cpp_def by (rule cpu_governor_loop_cpp_ends) simp_all

lemma ends_prime_select_cpp:
  "unchanged s0 s \<Longrightarrow>
   ends (prime_select_cpp c s) (\<lambda>_ t. unchanged s0 t) (\<lambda>e t. False)"
  by (erule ends_step_cpp)
    (auto simp: prime_select_cpp_def fexecl_cpp_no_Exit split: if_splits
       dest: fexecl_cpp_unchanged)

lemma ends_restart_display_manager_cpp:
  "unchanged s0 s \<Longrightarrow>
   ends (restart_display_manager_cpp s) (\<lambda>_ t. unchanged s0 t) (\<lambda>e t. False)"
  by (erule ends_step_cpp)
    (auto simp: restart_display_manager_cpp_def fexecl_cpp_no_Exit split: if_splits
       dest: fexecl_cpp_unchanged)

lemma ends_wifi_power_cpp:
  "unchanged s0 s \<Longrightarrow>
   ends (wifi_power_cpp w s) (\<lambda>_ t. unchanged s0 t) (\<lambda>e t. False)"
  by (erule ends_step_cpp)
    (auto simp: wifi_power_cpp_def andthen_Ret andthen_Exit wlan_name_Exit fexecl_cpp_no_Exit
       split: if_splits dest: fexecl_cpp_unchanged wlan_name_Ret)

lemma ends_transition_cpp:
  "ends (transition_cpp g c w s) (\<lambda>_ t. state_file t = state_file s) (\<lambda>e t. False)"
proof -
  have "ends (transition_cpp g c w s)
      (\<lambda>_ t. state_file t = state_file (seteuid 0 s)) (\<lambda>e t. False)"
    unfolding transition_cpp_def
    apply (rule ends_andthen, rule ends_cpu_governor_cpp, rule unchanged_refl)
    apply (rule ends_andthen, erule ends_prime_select_cpp)
    apply (rule ends_andthen, erule ends_wifi_power_cpp)
    apply (rule ends_andthen, erule ends_restart_display_manager_cpp)
    apply (simp add: ends_def unchanged_def seteuid_def state_file_def)
    done
  moreover have "state_file (seteuid 0 s) = state_file s"
    by (simp add: seteuid_def state_file_def)
  ultimately show ?thesis by simp
qed

lemma run_action_cpp_state_file:
  assumes "final_state (run_action_cpp a s) = Some t"
  shows "state_file t = state_file s"
proof (cases a)
  case Action_none
  with assms show ?thesis by (auto simp: action_none_cpp_def eprintf_def state_file_def)
next
  case Action_perform
  with assms ends_transition_cpp [of "''performance''" "''nvidia''" "''off''" s]
  show ?thesis
    by (cases "transition_cpp ''performance'' ''nvidia'' ''off'' s")
      (auto simp: action_perform_cpp_def transition_cpp_def ends_def)
next
  case Action_powersave
  with assms ends_transition_cpp [of "''powersave''" "''intel''" "''on''" s]
  show ?thesis
    by (cases "transition_cpp ''powersave'' ''intel'' ''on'' s")
      (auto simp: action_powersave_cpp_def transition_cpp_def ends_def)
next
  case Action_query
  with assms show ?thesis by simp
next
  case Action_toggle
  with assms show ?thesis by simp
next
  case Action_version
  with assms show ?thesis by (auto simp: action_version_cpp_def puts_def state_file_def)
next
  case Action_help
  with assms fold_puts_frame show ?thesis
    by (auto simp: action_help_cpp_def puts_def state_file_def)
qed

lemma parse_args_loop_cpp_fs: "fs (snd (parse_args_loop_cpp args s)) = fs s"
proof (induction args arbitrary: s)
  case Nil
  then show ?case by simp
next
  case (Cons a args)
  show ?case
  proof (cases "\<not> recognized a \<or> state_token a")
    case True
    then show ?thesis
      by (auto simp: parse_step_bad_cpp parse_step_state_cpp eprintf_def)
  next
    case False
    then have rec: "recognized a" and ns: "\<not> state_token a" by simp_all
    from recognized_cases [OF rec] show ?thesis
    proof
      assume "\<exists>act. token_action a = Some act"
      then obtain act where act: "token_action a = Some act" ..
      show ?thesis by (simp add: parse_step_action_cpp [OF act ns] Cons.IH)
    next
      assume nr: "is_norestart a"
      show ?thesis by (simp add: parse_step_norestart_cpp [OF nr] Cons.IH)
    qed
  qed
qed

lemma main_cpp_state_file:
  assumes "final_state (main_cpp argv0 args s) = Some t"
  shows "state_file t = state_file s"
proof -
  obtain r s1 where p: "parse_args_cpp argv0 args (s\<lparr>ruid := geteuid s\<rparr>) = (r, s1)"
    by (cases "parse_args_cpp argv0 args (s\<lparr>ruid := geteuid s\<rparr>)")
  have "fs s1 = fs s"
    using parse_args_loop_cpp_fs [of args
        "s\<lparr>ruid := geteuid s, flags := \<lparr>program_name = argv0, action = Action_none, no_restart = 0\<rparr>\<rparr>"] p
    by (simp add: parse_args_cpp_def)
  then have sf: "state_file s1 = state_file s" by (simp add: state_file_def)
  show ?thesis
  proof (cases "r = E_OK")
    case True
    with assms p have "final_state (run_action_cpp (action (flags s1)) s1) = Some t"
      by (simp add: main_cpp_def)
    from run_action_cpp_state_file [OF this] sf show ?thesis by simp
  next
    case False
    with assms p sf show ?thesis by (simp add: main_cpp_def)
  qed
qed

lemma main_cpp_no_exit: "exited (main_cpp argv0 args s) = None"
proof -
  obtain r s1 where p: "parse_args_cpp argv0 args (s\<lparr>ruid := geteuid s\<rparr>) = (r, s1)"
    by (cases "parse_args_cpp argv0 args (s\<lparr>ruid := geteuid s\<rparr>)")
  have t: "exited (transition_cpp g c w u) = None" for g c w u
    using ends_transition_cpp [of g c w u]
    by (cases "transition_cpp g c w u") (simp_all add: ends_def)
  have "exited (run_action_cpp a u) = None" for a u
    using t [of "''performance''" "''nvidia''" "''off''" u]
      t [of "''powersave''" "''intel''" "''on''" u]
    by (cases a)
      (simp_all add: action_none_cpp_def action_perform_cpp_def action_powersave_cpp_def
         action_version_cpp_def action_help_cpp_def transition_cpp_def)
  with p show ?thesis by (simp add: main_cpp_def)
qed

text \<open>
  Claim C9, as amended. The C++ file is a smaller variant of the C program, not a
  duplicate of it. On a command line without \<open>query\<close>, \<open>qu\<close>, \<open>toggle\<close> or \<open>to\<close> the
  two parsers give the same result (status, selected action, no-restart flag and
  diagnostic). A command line the C parser accepts with one of these four tokens is a
  bad argument for the C++ parser, and the C++ program exits with 2 on every command
  line that holds one of them. When the C parser rejects the command line, both
  programs exit with 2. When the C program returns from \<open>main\<close> on a command line
  without these four tokens, the C++ program returns the same exit code, having started
  the same programs, with the same effective identity and the same files, the state
  file apart, which it leaves as it found it. On no command line does the C++ program
  change the state file or end through \<open>exit\<close>.
\<close>

theorem cpp_variant_agreement:
  "((\<forall>a\<in>set args. \<not> state_token a) \<longrightarrow>
      parse_args_cpp argv0 args s = parse_args argv0 args s)
   \<and> ((\<forall>a\<in>set args. recognized a) \<and> (\<exists>a\<in>set args. state_token a) \<longrightarrow>
        fst (parse_args argv0 args s) = E_OK \<and> fst (parse_args_cpp argv0 args s) = E_BAD_ARG)
   \<and> ((\<exists>a\<in>set args. state_token a) \<longrightarrow> exit_status (main_cpp argv0 args s) = Some 2)
   \<and> (fst (parse_args argv0 args s) = E_BAD_ARG \<longrightarrow>
        exit_status (main argv0 args s) = Some 2 \<and> exit_status (main_cpp argv0 args s) = Some 2)
   \<and> ((\<forall>a\<in>set args. \<not> state_token a) \<and> main argv0 args s = Ret r t \<longrightarrow>
        (\<exists>t'. main_cpp argv0 args s = Ret r t' \<and> launched t' = launched t \<and> euid t' = euid t
              \<and> (\<forall>q. q \<noteq> pwr_state_path \<longrightarrow> fs t' q = fs t q)
              \<and> state_file t' = state_file s))
   \<and> (final_state (main_cpp argv0 args s) = Some u \<longrightarrow> state_file u = state_file s)
   \<and> exited (main_cpp argv0 args s) = None"
proof (intro conjI impI)
  assume "\<forall>a\<in>set args. \<not> state_token a"
  then show "parse_args_cpp argv0 args s = parse_args argv0 args s"
    by (simp add: parse_args_cpp_def parse_args_def parse_args_loop_cpp_eq)
next
  assume a: "(\<forall>a\<in>set args. recognized a) \<and> (\<exists>a\<in>set args. state_token a)"
  then show "fst (parse_args argv0 args s) = E_OK"
    by (simp add: parse_args_def parse_args_loop_recognized)
  from a have "\<exists>a\<in>set args. \<not> recognized a \<or> state_token a" by blast
  then show "fst (parse_args_cpp argv0 args s) = E_BAD_ARG"
    unfolding parse_args_cpp_def by (rule parse_args_loop_cpp_bad)
next
  assume "\<exists>a\<in>set args. state_token a"
  then have "\<exists>a\<in>set args. \<not> recognized a \<or> state_token a" by blast
  then show "exit_status (main_cpp argv0 args s) = Some 2" by (rule main_cpp_bad)
next
  assume "fst (parse_args argv0 args s) = E_BAD_ARG"
  then have b: "\<not> (\<forall>a\<in>set args. recognized a)" by (rule parse_args_bad_unrecognized)
  then show "exit_status (main argv0 args s) = Some 2" by (rule main_bad_arg)
  from b have "\<exists>a\<in>set args. \<not> recognized a \<or> state_token a" by blast
  then show "exit_status (main_cpp argv0 args s) = Some 2" by (rule main_cpp_bad)
next
  assume a: "(\<forall>a\<in>set args. \<not> state_token a) \<and> main argv0 args s = Ret r t"
  then obtain t' where t': "main_cpp argv0 args s = Ret r t'" and e: "same_effects t' t"
    using main_cpp_of_Ret by blast
  from t' have "final_state (main_cpp argv0 args s) = Some t'" by simp
  then have "state_file t' = state_file s" by (rule main_cpp_state_file)
  with t' e show "\<exists>t'. main_cpp argv0 args s = Ret r t' \<and> launched t' = launched t
              \<and> euid t' = euid t
              \<and> (\<forall>q. q \<noteq> pwr_state_path \<longrightarrow> fs t' q = fs t q)
              \<and> state_file t' = state_file s"
    by (auto simp: same_effects_def)
next
  assume "final_state (main_cpp argv0 args s) = Some u"
  then show "state_file u = state_file s" by (rule main_cpp_state_file)
next
  show "exited (main_cpp argv0 args s) = None" by (rule main_cpp_no_exit)
qed

lemmas cpp_defs = main_cpp_def parse_args_cpp_def parse_args_loop_cpp.simps transition_cpp_def
  cpu_governor_cpp_def cpu_governor_loop_cpp_step prime_select_cpp_def wifi_power_cpp_def
  restart_display_manager_cpp_def fexecl_cpp_def action_perform_cpp_def
  action_powersave_cpp_def

theorem cpp_variant_agreement_witness:
  "\<not> state_token ''perform'' \<and> \<not> state_token ''-n''
   \<and> parse_args_cpp ''pwr'' [''perform'', ''-n''] laptop
       = parse_args ''pwr'' [''perform'', ''-n''] laptop
   \<and> recognized ''-n'' \<and> recognized ''toggle'' \<and> state_token ''toggle''
   \<and> fst (parse_args ''pwr'' [''-n'', ''toggle''] laptop) = E_OK
   \<and> fst (parse_args_cpp ''pwr'' [''-n'', ''toggle''] laptop) = E_BAD_ARG
   \<and> exit_status (main_cpp ''pwr'' [''-n'', ''toggle''] laptop) = Some 2
   \<and> fst (parse_args ''pwr'' [''--fast''] laptop) = E_BAD_ARG
   \<and> exit_status (main ''pwr'' [''--fast''] laptop) = Some 2
   \<and> exit_status (main_cpp ''pwr'' [''--fast''] laptop) = Some 2
   \<and> main ''pwr'' [''perform''] laptop
       = Ret 0 (the (final_state (main ''pwr'' [''perform''] laptop)))
   \<and> (\<exists>t'. main_cpp ''pwr'' [''perform''] laptop = Ret 0 t'
         \<and> launched t' = launched (the (final_state (main ''pwr'' [''perform''] laptop)))
         \<and> euid t' = euid (the (final_state (main ''pwr'' [''perform''] laptop)))
         \<and> fs t' ''/sys/devices/system/cpu/cpu0/cpufreq/scaling_governor''
             = fs (the (final_state (main ''pwr'' [''perform''] laptop)))
                 ''/sys/devices/system/cpu/cpu0/cpufreq/scaling_governor''
         \<and> state_file t' = Some (''powersave'' @ [NL]))
   \<and> final_state (main_cpp ''pwr'' [''powersave''] readonly_laptop)
       = Some (the (final_state (main_cpp ''pwr'' [''powersave''] readonly_laptop)))
   \<and> state_file (the (final_state (main_cpp ''pwr'' [''powersave''] readonly_laptop)))
       = Some (''powersave'' @ [NL])
   \<and> exited (main_cpp ''pwr'' [''powersave''] readonly_laptop) = None"
proof -
  let ?t = "the (final_state (main ''pwr'' [''perform''] laptop))"
  let ?u = "the (final_state (main_cpp ''pwr'' [''powersave''] readonly_laptop))"
  have n1: "\<not> state_token ''perform''" and n2: "\<not> state_token ''-n''"
    and s1: "state_token ''toggle''"
    by (simp_all add: state_token_def)
  have r1: "recognized ''-n''" and r2: "recognized ''toggle''"
    by (simp_all add: recognized_def token_action_def is_norestart_def)
  have b: "fst (parse_args ''pwr'' [''--fast''] laptop) = E_BAD_ARG"
    by (simp add: parse_args_def parse_args_loop.simps)
  have m: "main ''pwr'' [''perform''] laptop = Ret 0 ?t"
    by (rule Ret_the_final)
      (simp add: main_defs action_perform_transition step_defs example_defs errors_defs)
  have f: "final_state (main_cpp ''pwr'' [''powersave''] readonly_laptop) = Some ?u"
    by (rule final_the [of _ 0])
      (simp add: cpp_defs step_defs geteuid_def example_defs errors_defs)
  have sl: "state_file laptop = Some (''powersave'' @ [NL])"
    and sr: "state_file readonly_laptop = Some (''powersave'' @ [NL])"
    by (simp_all add: state_file_def example_defs pwr_state_path_def)
  have c1: "parse_args_cpp ''pwr'' [''perform'', ''-n''] laptop
       = parse_args ''pwr'' [''perform'', ''-n''] laptop"
    using cpp_variant_agreement [of "[''perform'', ''-n'']" "''pwr''" laptop 0 ?t ?u] n1 n2
    by simp
  have c2: "fst (parse_args ''pwr'' [''-n'', ''toggle''] laptop) = E_OK"
    and c3: "fst (parse_args_cpp ''pwr'' [''-n'', ''toggle''] laptop) = E_BAD_ARG"
    and c3': "exit_status (main_cpp ''pwr'' [''-n'', ''toggle''] laptop) = Some 2"
    using cpp_variant_agreement [of "[''-n'', ''toggle'']" "''pwr''" laptop 0 ?t ?u] r1 r2 s1
    by simp_all
  have c4: "exit_status (main ''pwr'' [''--fast''] laptop) = Some 2"
    and c5: "exit_status (main_cpp ''pwr'' [''--fast''] laptop) = Some 2"
    using cpp_variant_agreement [of "[''--fast'']" "''pwr''" laptop 0 ?t ?u] b
    by simp_all
  have "\<forall>a\<in>set [''perform'']. \<not> state_token a"
    using n1 by simp
  with cpp_variant_agreement [of "[''perform'']" "''pwr''" laptop 0 ?t ?u] m
  obtain t' where t': "main_cpp ''pwr'' [''perform''] laptop = Ret 0 t'"
    "launched t' = launched ?t" "euid t' = euid ?t"
    and f': "\<forall>q. q \<noteq> pwr_state_path \<longrightarrow> fs t' q = fs ?t q"
    and sf: "state_file t' = state_file laptop"
    by blast
  have "''/sys/devices/system/cpu/cpu0/cpufreq/scaling_governor'' \<noteq> pwr_state_path"
    by (simp add: pwr_state_path_def)
  with f' have "fs t' ''/sys/devices/system/cpu/cpu0/cpufreq/scaling_governor''
             = fs ?t ''/sys/devices/system/cpu/cpu0/cpufreq/scaling_governor''"
    by blast
  with t' sf sl have c6: "\<exists>t'. main_cpp ''pwr'' [''perform''] laptop = Ret 0 t'
         \<and> launched t' = launched ?t \<and> euid t' = euid ?t
         \<and> fs t' ''/sys/devices/system/cpu/cpu0/cpufreq/scaling_governor''
             = fs ?t ''/sys/devices/system/cpu/cpu0/cpufreq/scaling_governor''
         \<and> state_file t' = Some (''powersave'' @ [NL])"
    by auto
  note v = cpp_variant_agreement [of "[''powersave'']" "''pwr''" readonly_laptop 0 ?t ?u]
  from v f have "state_file ?u = state_file readonly_laptop" by blast
  with sr have c7: "state_file ?u = Some (''powersave'' @ [NL])" by simp
  from v have c8: "exited (main_cpp ''pwr'' [''powersave''] readonly_laptop) = None"
    by blast
  show ?thesis by (intro conjI n1 n2 c1 r1 r2 s1 c2 c3 c3' b c4 c5 m c6 f c7 c8)
qed

text \<open>
  Claim C9 as stated fails on three command lines. \<open>pwr query\<close>: the C program prints
  the state and exits with 0, the C++ program exits with 2. \<open>pwr powersave\<close> with
  unwritable governor files: the C program exits with 3, the C++ program with 0.
  \<open>pwr perform\<close> on a laptop in powersave: the C program leaves \<open>perform\<close> in the state
  file, the C++ program leaves the file as it was.
\<close>

theorem cpp_differs_counterexample:
  "exit_status (main ''pwr'' [''query''] laptop) = Some 0
   \<and> exit_status (main_cpp ''pwr'' [''query''] laptop) = Some 2
   \<and> exit_status (main ''pwr'' [''powersave''] readonly_laptop) = Some 3
   \<and> exit_status (main_cpp ''pwr'' [''powersave''] readonly_laptop) = Some 0
   \<and> map_option state_file (final_state (main ''pwr'' [''perform''] laptop))
       = Some (Some (''perform'' @ [NL]))
   \<and> map_option state_file (final_state (main_cpp ''pwr'' [''perform''] laptop))
       = Some (Some (''powersave'' @ [NL]))"
proof -
  have 1: "exit_status (main ''pwr'' [''query''] laptop) = Some 0"
    by (simp add: main_defs action_query_def get_pwr_state_eq fopen_r_def puts_def
          example_defs errors_defs pwr_state_path_def)
  have 2: "exit_status (main_cpp ''pwr'' [''query''] laptop) = Some 2"
    by (simp add: cpp_defs geteuid_def eprintf_def errors_defs)
  have 3: "exit_status (main ''pwr'' [''powersave''] readonly_laptop) = Some 3"
    by (simp add: main_defs action_powersave_transition step_defs example_defs errors_defs)
  have 4: "exit_status (main_cpp ''pwr'' [''powersave''] readonly_laptop) = Some 0"
    by (simp add: cpp_defs step_defs geteuid_def example_defs errors_defs)
  have 5: "map_option state_file (final_state (main ''pwr'' [''perform''] laptop))
       = Some (Some (''perform'' @ [NL]))"
    by (simp add: main_defs state_file_def action_perform_transition step_defs example_defs
          errors_defs)
  have 6: "map_option state_file (final_state (main_cpp ''pwr'' [''perform''] laptop))
       = Some (Some (''powersave'' @ [NL]))"
    by (simp add: cpp_defs step_defs geteuid_def state_file_def example_defs errors_defs)
  show ?thesis by (intro conjI 1 2 3 4 5 6)
qed

end
